theory Spec2Isabelle
  imports Main "HOL-Library.Word"
begin

unbundle bit_operations_syntax

section \<open>Bytes, Python integers and errors\<close>

text \<open>
  The program is \<^verbatim>\<open>build_factory_image.py\<close>. Python's \<^verbatim>\<open>bytes\<close> are lists of
  8-bit words, Python's unbounded integers are \<open>int\<close>. Every exception the program can
  raise is a value of \<open>error\<close>; none of them is caught by the program, so the first
  one ends the run.
\<close>

type_synonym byte = "8 word"
type_synonym bytes = "byte list"

datatype error =
    OverflowError
  | ZeroDivisionError
  | OSError string
  | ArgparseExit

definition bind_res :: "error + 'a \<Rightarrow> ('a \<Rightarrow> error + 'b) \<Rightarrow> error + 'b" where
  "bind_res r f = (case r of Inl e \<Rightarrow> Inl e | Inr x \<Rightarrow> f x)"

text \<open>
  \<^verbatim>\<open>n.to_bytes(length, byteorder="little")\<close>: the built-in raises \<^verbatim>\<open>OverflowError\<close> for a
  negative \<open>n\<close> (the conversion is unsigned) and for an \<open>n\<close> that does not fit into
  \<open>length\<close> bytes; otherwise the least significant byte comes first.
\<close>

fun le_digits :: "nat \<Rightarrow> int \<Rightarrow> bytes" where
  "le_digits 0 n = []"
| "le_digits (Suc k) n = word_of_int (n mod 256) # le_digits k (n div 256)"

definition to_bytes :: "int \<Rightarrow> nat \<Rightarrow> error + bytes" where
  "to_bytes n len =
     (if n < 0 then Inl OverflowError
      else if 256 ^ len \<le> n then Inl OverflowError
      else Inr (le_digits len n))"

text \<open>
  \<^verbatim>\<open>zlib.crc32(data)\<close> is a library routine: the CRC-32 of ISO 3309 in its reflected
  form (polynomial \<open>0xEDB88320\<close>), register initialised to all ones, result complemented,
  returned as an unsigned integer.
\<close>

definition crc32_shift :: "32 word \<Rightarrow> 32 word" where
  "crc32_shift c = (if bit c 0 then drop_bit 1 c XOR 0xEDB88320 else drop_bit 1 c)"

definition crc32_update :: "32 word \<Rightarrow> byte \<Rightarrow> 32 word" where
  "crc32_update c b = (crc32_shift ^^ 8) (c XOR ucast b)"

definition crc32 :: "bytes \<Rightarrow> int" where
  "crc32 data = uint (foldl crc32_update 0xFFFFFFFF data XOR 0xFFFFFFFF)"

section \<open>The metadata record\<close>

record Metadata =
  crc32_checksum :: int
  primary_kernel_size :: int
  squashfs_size :: int
  uboot_size :: int
  backup_kernel_size :: int

text \<open>
  \<^verbatim>\<open>Metadata.pack_metadata\<close>: a sum of eleven 4-byte pieces; Python evaluates the
  operands of the chain of \<^verbatim>\<open>+\<close> from left to right, so the first conversion that
  raises ends the call.
\<close>

definition pack_metadata :: "Metadata \<Rightarrow> error + bytes" where
  "pack_metadata m =
     bind_res (to_bytes (crc32_checksum m) 4) (\<lambda>b1.
     bind_res (to_bytes (primary_kernel_size m) 4) (\<lambda>b2.
     bind_res (to_bytes (squashfs_size m) 4) (\<lambda>b3.
     bind_res (to_bytes (uboot_size m) 4) (\<lambda>b4.
     bind_res (to_bytes (backup_kernel_size m + 40) 4) (\<lambda>b5.
     bind_res (to_bytes 2 4) (\<lambda>b6.
       Inr (b1 @ b2 @ b3 @ b4
            @ concat (replicate 3 [0x00, 0x00, 0x00, 0x00])
            @ [0x07, 0x00, 0x00, 0x00]
            @ b5
            @ b6
            @ [0x70, 0x05, 0x00, 0x00])))))))"

section \<open>Files and the order of effects\<close>

text \<open>
  The world the program runs in: the files it can read (a path that is missing or
  unreadable has no content), the paths that cannot be opened for writing, and the log of
  what the run has done so far. An \<open>OpenRead\<close> or \<open>OpenWrite\<close> event is logged for
  every call of \<^verbatim>\<open>open\<close>, whether it succeeds or not; \<open>Print\<close> keeps the section name and
  the number of a printed line (the decimal and hexadecimal rendering is not modelled).
\<close>

datatype event = OpenRead string | OpenWrite string | Print string int

record world =
  files :: "string \<rightharpoonup> bytes"
  unwritable :: "string set"
  trace :: "event list"

type_synonym 'a io = "world \<Rightarrow> (error + 'a) \<times> world"

definition io_return :: "'a \<Rightarrow> 'a io" where
  "io_return x w = (Inr x, w)"

definition io_lift :: "error + 'a \<Rightarrow> 'a io" where
  "io_lift r w = (r, w)"

definition io_bind :: "'a io \<Rightarrow> ('a \<Rightarrow> 'b io) \<Rightarrow> 'b io" where
  "io_bind m f w = (case m w of (Inl e, w') \<Rightarrow> (Inl e, w') | (Inr x, w') \<Rightarrow> f x w')"

definition emit :: "event \<Rightarrow> unit io" where
  "emit ev w = (Inr (), w\<lparr>trace := trace w @ [ev]\<rparr>)"

text \<open>\<^verbatim>\<open>load_binary(path)\<close>: open for reading, return the whole content.\<close>

definition load_binary :: "string \<Rightarrow> bytes io" where
  "load_binary path =
     io_bind (emit (OpenRead path)) (\<lambda>_ w.
       case files w path of
         None \<Rightarrow> (Inl (OSError path), w)
       | Some content \<Rightarrow> (Inr content, w))"

text \<open>
  The four module-level assignments. They are statements of the module body, so they run
  when the module is loaded, before the call of \<^verbatim>\<open>main\<close> at its end.
\<close>

record statics =
  header_data :: bytes
  uboot_data :: bytes
  metadata_header_data :: bytes
  metadata_footer_data :: bytes

definition module_init :: "statics io" where
  "module_init =
     io_bind (load_binary ''static/header.bin'') (\<lambda>h.
     io_bind (load_binary ''static/uboot.bin'') (\<lambda>u.
     io_bind (load_binary ''static/metadata_header.bin'') (\<lambda>mh.
     io_bind (load_binary ''static/metadata_footer.bin'') (\<lambda>mf.
       io_return \<lparr>header_data = h, uboot_data = u,
                  metadata_header_data = mh, metadata_footer_data = mf\<rparr>))))"

section \<open>Command line\<close>

text \<open>
  \<^verbatim>\<open>argparse\<close> is a library; its tokenizer is not modelled. The command line is given by
  the value, if any, that it holds for each of the four arguments the parser declares.
  \<^verbatim>\<open>output\<close> is positional and \<^verbatim>\<open>--kernel\<close>, \<^verbatim>\<open>--rootfs\<close> are declared
  \<^verbatim>\<open>required=True\<close>: when one of them is absent the parser exits with status 2.
\<close>

record cmdline =
  opt_output :: "string option"
  opt_kernel :: "string option"
  opt_rootfs :: "string option"
  opt_ramdisk :: "string option"

record args =
  arg_output :: string
  arg_kernel :: string
  arg_rootfs :: string
  arg_ramdisk :: "string option"

definition parse_args :: "cmdline \<Rightarrow> error + args" where
  "parse_args cl =
     (case (opt_output cl, opt_kernel cl, opt_rootfs cl) of
        (Some out, Some k, Some r) \<Rightarrow>
          Inr \<lparr>arg_output = out, arg_kernel = k, arg_rootfs = r, arg_ramdisk = opt_ramdisk cl\<rparr>
      | _ \<Rightarrow> Inl ArgparseExit)"

text \<open>
  \<^verbatim>\<open>load_user_data(args)\<close>. The test \<^verbatim>\<open>if args.ramdisk\<close> is Python truthiness: both an
  absent option (\<^verbatim>\<open>None\<close>) and an empty string select the kernel's bytes.
\<close>

definition load_user_data :: "args \<Rightarrow> (bytes \<times> bytes \<times> bytes) io" where
  "load_user_data a =
     io_bind (load_binary (arg_kernel a)) (\<lambda>kernel_data.
     io_bind (load_binary (arg_rootfs a)) (\<lambda>rootfs_data.
     io_bind (case arg_ramdisk a of
                None \<Rightarrow> io_return kernel_data
              | Some p \<Rightarrow> if p = [] then io_return kernel_data else load_binary p)
       (\<lambda>ramdisk_data.
         io_return (kernel_data, rootfs_data, ramdisk_data))))"

section \<open>Building the image\<close>

text \<open>
  \<^verbatim>\<open>append_data(original, data, alignment)\<close>. Python's \<^verbatim>\<open>%\<close> takes the sign of the
  divisor, as \<open>mod\<close> on \<open>int\<close> does, and raises for a zero divisor; a byte string times
  a negative number is empty. The second component is \<^verbatim>\<open>len(data)\<close> after the padding
  has been added to \<^verbatim>\<open>data\<close>.
\<close>

definition append_data :: "bytes \<Rightarrow> bytes \<Rightarrow> int \<Rightarrow> error + (bytes \<times> int)" where
  "append_data original data alignment =
     (if alignment = 0 then Inl ZeroDivisionError
      else
        let padded = data @ replicate
              (nat (alignment - ((int (length original) + int (length data)) mod alignment)))
              (0x00 :: byte)
        in Inr (original @ padded, int (length padded)))"

text \<open>\<^verbatim>\<open>main\<close>, with the module's four globals as \<open>st\<close>.\<close>

definition main :: "statics \<Rightarrow> cmdline \<Rightarrow> unit io" where
  "main st cl =
     (let alignment = 16 in
      io_bind (io_lift (parse_args cl)) (\<lambda>a.
      io_bind (load_user_data a) (\<lambda>(kernel_data, rootfs_data, ramdisk_data).
      io_bind (io_lift (append_data (header_data st) rootfs_data alignment)) (\<lambda>(final1, rootfs_len).
      io_bind (io_lift (append_data final1 kernel_data alignment)) (\<lambda>(final2, kernel_len).
      io_bind (io_lift (append_data final2 (uboot_data st) alignment)) (\<lambda>(final3, uboot_len).
      io_bind (io_lift (append_data final3 ramdisk_data alignment)) (\<lambda>(final4, ramdisk_len).
      let final5 = final4 @ metadata_header_data st in
      io_bind (emit (Print ''Rootfs'' rootfs_len)) (\<lambda>_.
      io_bind (emit (Print ''Kernel'' kernel_len)) (\<lambda>_.
      io_bind (emit (Print ''Uboot'' uboot_len)) (\<lambda>_.
      io_bind (emit (Print ''Ramdisk'' ramdisk_len)) (\<lambda>_.
      let crc = crc32 (drop 32 final5);
          metadata = \<lparr>crc32_checksum = crc,
                      primary_kernel_size = kernel_len,
                      squashfs_size = rootfs_len,
                      uboot_size = uboot_len,
                      backup_kernel_size = ramdisk_len\<rparr>
      in
      io_bind (io_lift (pack_metadata metadata)) (\<lambda>block.
      let final6 = final5 @ block;
          final7 = final6 @ metadata_footer_data st
      in
      io_bind (emit (OpenWrite (arg_output a))) (\<lambda>_ w.
        if arg_output a \<in> unwritable w then (Inl (OSError (arg_output a)), w)
        else (Inr (), w\<lparr>files := (files w)(arg_output a \<mapsto> final7)\<rparr>))))))))))))))"

text \<open>Running the script: the module body, then \<^verbatim>\<open>main()\<close>.\<close>

definition program :: "cmdline \<Rightarrow> unit io" where
  "program cl = io_bind module_init (\<lambda>st. main st cl)"

section \<open>Vocabulary of the layout claims\<close>

text \<open>
  The specification's ``little-endian 32-bit integer'': four bytes, the least significant
  one first. This definition follows the specification's words; \<open>le_value\<close> is the
  value a reader of the record gets back from a run of bytes.
\<close>

definition le32_spec :: "int \<Rightarrow> bytes" where
  "le32_spec n =
     [word_of_int (n mod 256),
      word_of_int ((n div 2 ^ 8) mod 256),
      word_of_int ((n div 2 ^ 16) mod 256),
      word_of_int ((n div 2 ^ 24) mod 256)]"

fun le_value :: "bytes \<Rightarrow> int" where
  "le_value [] = 0"
| "le_value (b # bs) = uint b + 256 * le_value bs"

text \<open>Every value that \<open>pack_metadata\<close> converts fits into four unsigned bytes.\<close>

definition packable :: "Metadata \<Rightarrow> bool" where
  "packable m \<longleftrightarrow>
     0 \<le> crc32_checksum m \<and> crc32_checksum m < 2 ^ 32 \<and>
     0 \<le> primary_kernel_size m \<and> primary_kernel_size m < 2 ^ 32 \<and>
     0 \<le> squashfs_size m \<and> squashfs_size m < 2 ^ 32 \<and>
     0 \<le> uboot_size m \<and> uboot_size m < 2 ^ 32 \<and>
     0 \<le> backup_kernel_size m + 40 \<and> backup_kernel_size m + 40 < 2 ^ 32"

text \<open>
  A section as the appender stores it when the buffer already holds \<open>off\<close> bytes: the
  raw bytes, then the zero bytes that bring the running total to the next multiple of 16
  (a whole block of 16 when it already is one).
\<close>

definition padded_spec :: "nat \<Rightarrow> bytes \<Rightarrow> bytes" where
  "padded_spec off s = s @ replicate (16 - (off + length s) mod 16) 0x00"

text \<open>
  A step of the run is quiet when it leaves every file as it was and logs no
  \<open>OpenWrite\<close>.
\<close>

definition quiet :: "world \<Rightarrow> world \<Rightarrow> bool" where
  "quiet w w' \<longleftrightarrow>
     files w' = files w \<and> unwritable w' = unwritable w \<and>
     (\<exists>evs. trace w' = trace w @ evs \<and> (\<forall>p. OpenWrite p \<notin> set evs))"

text \<open>
  A small run, used to instantiate the theorems below: a header of 32 zero bytes, a rootfs
  of 17 bytes \<open>0xAA\<close>, a kernel of 16 bytes \<open>0xBB\<close>, a bootloader of one byte
  \<open>0xCC\<close>, one-byte metadata templates and no \<^verbatim>\<open>--ramdisk\<close>. \<open>example_image\<close> is the
  file the run writes and \<open>example_result\<close> the world it ends in.
\<close>

definition example_world :: world where
  "example_world =
     \<lparr>files = [''static/header.bin'' \<mapsto> replicate 32 0x00,
               ''static/uboot.bin'' \<mapsto> [0xCC],
               ''static/metadata_header.bin'' \<mapsto> [0x01],
               ''static/metadata_footer.bin'' \<mapsto> [0x02],
               ''kernel.bin'' \<mapsto> replicate 16 0xBB,
               ''rootfs.bin'' \<mapsto> replicate 17 0xAA],
      unwritable = {},
      trace = []\<rparr>"

definition example_cmdline :: cmdline where
  "example_cmdline =
     \<lparr>opt_output = Some ''out.bin'', opt_kernel = Some ''kernel.bin'',
      opt_rootfs = Some ''rootfs.bin'', opt_ramdisk = None\<rparr>"

definition example_sections :: bytes where
  "example_sections =
     (replicate 17 0xAA @ replicate 15 0x00) @ (replicate 16 0xBB @ replicate 16 0x00)
     @ ([0xCC] @ replicate 15 0x00) @ (replicate 16 0xBB @ replicate 16 0x00)"

definition example_block :: bytes where
  "example_block =
     [0xFE, 0xBB, 0x1C, 0xE8, 32, 0, 0, 0, 32, 0, 0, 0, 16, 0, 0, 0,
      0, 0, 0, 0, 0, 0, 0, 0, 0, 0, 0, 0, 7, 0, 0, 0,
      72, 0, 0, 0, 2, 0, 0, 0, 0x70, 5, 0, 0]"

definition example_image :: bytes where
  "example_image = replicate 32 0x00 @ example_sections @ [0x01] @ example_block @ [0x02]"

definition example_result :: world where
  "example_result =
     example_world
        \<lparr>trace := [OpenRead ''static/header.bin'', OpenRead ''static/uboot.bin'',
                   OpenRead ''static/metadata_header.bin'',
                   OpenRead ''static/metadata_footer.bin'',
                   OpenRead ''kernel.bin'', OpenRead ''rootfs.bin'',
                   Print ''Rootfs'' 32, Print ''Kernel'' 32, Print ''Uboot'' 16,
                   Print ''Ramdisk'' 32, OpenWrite ''out.bin''],
         files := (files example_world)(''out.bin'' \<mapsto> example_image)\<rparr>"

section \<open>Integer conversion\<close>

lemma bind_res_simps [simp]:
  "bind_res (Inl e) f = Inl e"
  "bind_res (Inr x) f = f x"
  by (simp_all add: bind_res_def)

lemma length_le_digits [simp]: "length (le_digits k n) = k"
  by (induction k arbitrary: n) simp_all

lemma le_digits_4: "le_digits 4 n = le32_spec n"
proof -
  have "n div 256 div 256 = n div 65536" "n div 256 div 256 div 256 = n div 16777216"
    by (simp_all add: div_mult2_eq)
  then have "le_digits (Suc (Suc (Suc (Suc 0)))) n = le32_spec n"
    by (simp add: le32_spec_def)
  then show ?thesis by (simp add: eval_nat_numeral)
qed

lemma length_le32_spec [simp]: "length (le32_spec n) = 4"
  by (simp add: le32_spec_def)

lemma le_value_le_digits:
  "0 \<le> n \<Longrightarrow> n < 256 ^ k \<Longrightarrow> le_value (le_digits k n) = n"
proof (induction k arbitrary: n)
  case 0
  then show ?case by simp
next
  case (Suc k)
  have "n div 256 < 256 ^ k" using Suc.prems by simp
  moreover have "0 \<le> n div 256" using Suc.prems by simp
  ultimately have "le_value (le_digits k (n div 256)) = n div 256"
    by (rule Suc.IH[rotated])
  moreover have "uint (word_of_int (n mod 256) :: byte) = n mod 256"
    by (simp add: uint_word_of_int take_bit_eq_mod)
  ultimately show ?case by simp
qed

lemma le_value_le32_spec:
  "0 \<le> n \<Longrightarrow> n < 2 ^ 32 \<Longrightarrow> le_value (le32_spec n) = n"
  using le_value_le_digits [of n 4] by (simp add: le_digits_4)

lemma to_bytes_4_cases:
  "to_bytes n 4 = (if 0 \<le> n \<and> n < 2 ^ 32 then Inr (le32_spec n) else Inl OverflowError)"
  by (simp add: to_bytes_def le_digits_4)

section \<open>The metadata serializer\<close>

lemma reserved_zeros:
  "concat (replicate 3 [0x00, 0x00, 0x00, 0x00 :: byte]) = [0, 0, 0, 0, 0, 0, 0, 0, 0, 0, 0, 0]"
  by (simp add: eval_nat_numeral)

lemma le32_spec_consts:
  "le32_spec 0 = [0, 0, 0, 0]" "le32_spec 7 = [7, 0, 0, 0]"
  "le32_spec 2 = [2, 0, 0, 0]" "le32_spec 0x570 = [0x70, 5, 0, 0]"
  by (simp_all add: le32_spec_def)

lemma pack_metadata_cases:
  "pack_metadata m =
     (if packable m then
        Inr (le32_spec (crc32_checksum m) @ le32_spec (primary_kernel_size m)
             @ le32_spec (squashfs_size m) @ le32_spec (uboot_size m)
             @ [0, 0, 0, 0, 0, 0, 0, 0, 0, 0, 0, 0] @ [7, 0, 0, 0]
             @ le32_spec (backup_kernel_size m + 40) @ [2, 0, 0, 0] @ [0x70, 5, 0, 0])
      else Inl OverflowError)"
  by (simp add: pack_metadata_def packable_def to_bytes_4_cases le32_spec_def [of 2]
      reserved_zeros)

text \<open>
  Claim C1, as the code has it. The record \<open>pack_metadata\<close> returns is not 32 bytes
  long: the three reserved words make it eleven 32-bit words, 44 bytes. For every
  metadata record whose converted values fit into 32 bits, \<open>pack_metadata\<close> returns
  \<open>crc32_checksum\<close>, \<open>primary_kernel_size\<close>, \<open>squashfs_size\<close>, \<open>uboot_size\<close>, three zero
  words, \<open>0x00000007\<close>, \<open>backup_kernel_size + 40\<close>, \<open>0x00000002\<close> and \<open>0x00000570\<close>, in
  that order, each as a little-endian 32-bit integer, with nothing between them.
\<close>

theorem pack_metadata_layout:
  assumes "packable m"
  shows "\<exists>bs. pack_metadata m = Inr bs \<and> length bs = 44 \<and>
    bs = le32_spec (crc32_checksum m) @ le32_spec (primary_kernel_size m)
         @ le32_spec (squashfs_size m) @ le32_spec (uboot_size m)
         @ le32_spec 0 @ le32_spec 0 @ le32_spec 0
         @ le32_spec 0x00000007
         @ le32_spec (backup_kernel_size m + 40)
         @ le32_spec 0x00000002
         @ le32_spec 0x00000570"
  using assms by (simp add: pack_metadata_cases le32_spec_consts)

theorem pack_metadata_layout_witness:
  "packable \<lparr>crc32_checksum = 0x37B5CCBB, primary_kernel_size = 32, squashfs_size = 32,
      uboot_size = 16, backup_kernel_size = 32\<rparr> \<and>
   pack_metadata \<lparr>crc32_checksum = 0x37B5CCBB, primary_kernel_size = 32, squashfs_size = 32,
      uboot_size = 16, backup_kernel_size = 32\<rparr> =
     Inr [0xBB, 0xCC, 0xB5, 0x37, 32, 0, 0, 0, 32, 0, 0, 0, 16, 0, 0, 0,
          0, 0, 0, 0, 0, 0, 0, 0, 0, 0, 0, 0, 7, 0, 0, 0,
          72, 0, 0, 0, 2, 0, 0, 0, 0x70, 5, 0, 0]"
proof -
  have h: "packable \<lparr>crc32_checksum = 0x37B5CCBB, primary_kernel_size = 32,
      squashfs_size = 32, uboot_size = 16, backup_kernel_size = 32\<rparr>"
    by (simp add: packable_def)
  show ?thesis using h pack_metadata_layout [OF h]
    by (simp add: le32_spec_def)
qed

text \<open>
  Claim C1 as stated fails: with the checksum of the comment at the head of the source
  and the section sizes 32, 32, 16 and 32, the serialized record has 44 bytes, not 32.
\<close>

theorem pack_metadata_length_counterexample:
  "pack_metadata \<lparr>crc32_checksum = 0x37B5CCBB, primary_kernel_size = 32, squashfs_size = 32,
      uboot_size = 16, backup_kernel_size = 32\<rparr> =
     Inr [0xBB, 0xCC, 0xB5, 0x37, 32, 0, 0, 0, 32, 0, 0, 0, 16, 0, 0, 0,
          0, 0, 0, 0, 0, 0, 0, 0, 0, 0, 0, 0, 7, 0, 0, 0,
          72, 0, 0, 0, 2, 0, 0, 0, 0x70, 5, 0, 0]
   \<and> length [0xBB, 0xCC, 0xB5, 0x37, 32, 0, 0, 0, 32, 0, 0, 0, 16, 0, 0, 0,
          0, 0, 0, 0, 0, 0, 0, 0, 0, 0, 0, 0, 7, 0, 0, 0,
          72, 0, 0, 0, 2, 0, 0, 0, 0x70, 5, 0, 0 :: byte] \<noteq> 32"
  by (simp add: pack_metadata_cases packable_def le32_spec_def)

text \<open>
  Claim C10, as the code has it. \<open>pack_metadata\<close> raises \<^verbatim>\<open>OverflowError\<close> exactly when
  \<open>crc32_checksum\<close>, \<open>primary_kernel_size\<close>, \<open>squashfs_size\<close> or \<open>uboot_size\<close> is negative or
  at least \<open>2^32\<close>, or \<open>backup_kernel_size + 40\<close> is (that is, \<open>backup_kernel_size\<close> is below
  \<open>-40\<close> or above \<open>2^32 - 41\<close>). Otherwise it returns 44 bytes in which each of the five
  integers occupies its own four bytes and reads back, little-endian, as its value.
\<close>

theorem pack_metadata_total_iff:
  "(pack_metadata m = Inl OverflowError \<longleftrightarrow> \<not> packable m) \<and>
   (packable m \<longrightarrow>
     (\<exists>bs. pack_metadata m = Inr bs \<and> length bs = 44 \<and>
        le_value (take 4 bs) = crc32_checksum m \<and>
        le_value (take 4 (drop 4 bs)) = primary_kernel_size m \<and>
        le_value (take 4 (drop 8 bs)) = squashfs_size m \<and>
        le_value (take 4 (drop 12 bs)) = uboot_size m \<and>
        le_value (take 4 (drop 32 bs)) = backup_kernel_size m + 40))"
  by (simp add: pack_metadata_cases le_value_le32_spec packable_def)

theorem pack_metadata_total_iff_witness:
  "packable \<lparr>crc32_checksum = 0x37B5CCBB, primary_kernel_size = 32, squashfs_size = 32,
      uboot_size = 16, backup_kernel_size = 4294967255\<rparr> \<and>
   pack_metadata \<lparr>crc32_checksum = 0x37B5CCBB, primary_kernel_size = 32, squashfs_size = 32,
      uboot_size = 16, backup_kernel_size = 4294967255\<rparr> \<noteq> Inl OverflowError \<and>
   \<not> packable \<lparr>crc32_checksum = 0x37B5CCBB, primary_kernel_size = 32, squashfs_size = 32,
      uboot_size = 16, backup_kernel_size = 4294967256\<rparr> \<and>
   pack_metadata \<lparr>crc32_checksum = 0x37B5CCBB, primary_kernel_size = 32, squashfs_size = 32,
      uboot_size = 16, backup_kernel_size = 4294967256\<rparr> = Inl OverflowError"
  using
    pack_metadata_total_iff [of "\<lparr>crc32_checksum = 0x37B5CCBB, primary_kernel_size = 32,
      squashfs_size = 32, uboot_size = 16, backup_kernel_size = 4294967255\<rparr>"]
    pack_metadata_total_iff [of "\<lparr>crc32_checksum = 0x37B5CCBB, primary_kernel_size = 32,
      squashfs_size = 32, uboot_size = 16, backup_kernel_size = 4294967256\<rparr>"]
  by (simp add: packable_def)

text \<open>
  Claim C10 as stated fails: a negative \<open>backup_kernel_size\<close> does not make
  \<open>pack_metadata\<close> raise as long as \<open>backup_kernel_size + 40\<close> is not negative. With
  \<open>backup_kernel_size = -1\<close> the call returns the record, the word 39 in the ninth place.
\<close>

theorem pack_metadata_negative_backup_counterexample:
  "backup_kernel_size \<lparr>crc32_checksum = 0, primary_kernel_size = 0, squashfs_size = 0,
      uboot_size = 0, backup_kernel_size = -1\<rparr> < 0 \<and>
   pack_metadata \<lparr>crc32_checksum = 0, primary_kernel_size = 0, squashfs_size = 0,
      uboot_size = 0, backup_kernel_size = -1\<rparr> =
     Inr [0, 0, 0, 0, 0, 0, 0, 0, 0, 0, 0, 0, 0, 0, 0, 0,
          0, 0, 0, 0, 0, 0, 0, 0, 0, 0, 0, 0, 7, 0, 0, 0,
          39, 0, 0, 0, 2, 0, 0, 0, 0x70, 5, 0, 0]"
  by (simp add: pack_metadata_cases packable_def le32_spec_def)

section \<open>The section appender\<close>

lemma nat_pad: "nat (16 - (int a + int b) mod 16) = 16 - (a + b) mod 16"
proof -
  have "(int a + int b) mod 16 = int ((a + b) mod 16)"
    by (simp add: zmod_int)
  then show ?thesis by simp
qed

lemma pad_total: "16 dvd (n + (16 - n mod 16))" for n :: nat
proof -
  have "n mod 16 < 16" by simp
  then have "n + (16 - n mod 16) = (n - n mod 16) + 16"
    by simp
  also have "n - n mod 16 = 16 * (n div 16)"
    by (simp add: minus_mod_eq_mult_div)
  finally show ?thesis by simp
qed

lemma pad_shift: "16 dvd off \<Longrightarrow> (off + n) mod 16 = n mod 16" for n :: nat
  by (metis mod_add_left_eq dvd_imp_mod_0 add_0)

lemma append_data_16:
  "append_data original data 16 =
     Inr (original @ data @ replicate (16 - (length original + length data) mod 16) 0,
          int (length data) + int (16 - (length original + length data) mod 16))"
  unfolding append_data_def Let_def nat_pad by simp

text \<open>
  Claim C4. For every buffer \<open>original\<close> and every raw section \<open>data\<close>, the appender with
  alignment 16 appends \<open>data\<close> and then \<open>P = 16 - ((len(original) + len(data)) mod 16)\<close> zero
  bytes, and returns the new buffer with the padded length \<open>len(data) + P\<close>; when
  \<open>len(original) + len(data)\<close> is already a multiple of 16 it appends a whole block of 16
  zero bytes.
\<close>

theorem append_data_pads:
  "append_data original data 16 =
     Inr (original @ data @ replicate (16 - (length original + length data) mod 16) 0,
          int (length data) + int (16 - (length original + length data) mod 16))
   \<and> ((length original + length data) mod 16 = 0 \<longrightarrow>
        append_data original data 16 =
          Inr (original @ data @ replicate 16 0, int (length data) + 16))"
  by (simp add: append_data_16)

theorem append_data_pads_witness:
  "(length (replicate 32 (0x00 :: byte)) + length (replicate 16 (0xBB :: byte))) mod 16 = 0 \<and>
   append_data (replicate 32 0x00) (replicate 16 0xBB) 16 =
     Inr (replicate 32 0x00 @ replicate 16 0xBB @ replicate 16 0x00, 32)"
  using append_data_pads [of "replicate 32 0x00" "replicate 16 0xBB"]
  by simp

text \<open>
  Claim C6, as the code has it. For every buffer and every section the appender adds at
  least 1 and at most 16 zero bytes and the new buffer's length is a multiple of 16. The
  padded length it returns is a multiple of 16 when the buffer it appends to is itself
  aligned, which is how \<open>main\<close> calls it when the header has 32 bytes.
\<close>

theorem append_data_aligned:
  "\<exists>buf n p. append_data original data 16 = Inr (buf, n)
      \<and> buf = original @ data @ replicate p 0
      \<and> n = int (length data) + int p
      \<and> 1 \<le> p \<and> p \<le> 16
      \<and> length buf mod 16 = 0
      \<and> (length original mod 16 = 0 \<longrightarrow> n mod 16 = 0)"
proof -
  let ?p = "16 - (length original + length data) mod 16"
  have eq: "append_data original data 16 =
      Inr (original @ data @ replicate ?p 0, int (length data) + int ?p)"
    by (rule append_data_16)
  have p: "1 \<le> ?p" "?p \<le> 16" by simp_all
  have "16 dvd (length original + length data + ?p)"
    by (rule pad_total)
  then have tot: "length (original @ data @ replicate ?p (0::byte)) mod 16 = 0"
    by (simp add: add.assoc)
  have al: "length original mod 16 = 0 \<longrightarrow> (int (length data) + int ?p) mod 16 = 0"
  proof
    assume "length original mod 16 = 0"
    then have "16 dvd length original" by (simp add: dvd_eq_mod_eq_0)
    then have "?p = 16 - length data mod 16" by (simp add: pad_shift)
    then have "16 dvd (length data + ?p)" using pad_total [of "length data"] by simp
    then have "int ((length data + ?p) mod 16) = 0" by simp
    then show "(int (length data) + int ?p) mod 16 = 0"
      by (simp only: zmod_int of_nat_add of_nat_numeral)
  qed
  show ?thesis
  proof (intro exI conjI)
    show "append_data original data 16 =
      Inr (original @ data @ replicate ?p 0, int (length data) + int ?p)"
      by (rule eq)
  qed (rule refl, rule refl, rule p, rule p, rule tot, rule al)
qed

theorem append_data_aligned_witness:
  "length (replicate 32 (0x00 :: byte)) mod 16 = 0 \<and>
   (\<exists>buf n p. append_data (replicate 32 0x00) (replicate 17 0xAA) 16 = Inr (buf, n)
      \<and> buf = replicate 32 0x00 @ replicate 17 0xAA @ replicate p 0
      \<and> n = 17 + int p \<and> 1 \<le> p \<and> p \<le> 16
      \<and> length buf mod 16 = 0 \<and> n mod 16 = 0)"
  using append_data_aligned [of "replicate 32 0x00" "replicate 17 0xAA"]
  by simp

text \<open>
  Claim C6 as stated fails for a buffer that is not aligned: appending the empty section
  to a buffer of one byte adds 15 zero bytes and returns the padded length 15, which is
  not a multiple of 16.
\<close>

theorem append_data_unaligned_counterexample:
  "append_data [0xFF] [] 16 = Inr (0xFF # replicate 15 0x00, 15) \<and> (15 :: int) mod 16 \<noteq> 0"
  by (simp add: append_data_16)

section \<open>Reading files\<close>

lemma quiet_trans: "quiet w w1 \<Longrightarrow> quiet w1 w2 \<Longrightarrow> quiet w w2"
  unfolding quiet_def
  by (metis Un_iff append.assoc set_append)

lemma load_binary_eq:
  "load_binary path w =
     (case files w path of None \<Rightarrow> Inl (OSError path) | Some content \<Rightarrow> Inr content,
      w\<lparr>trace := trace w @ [OpenRead path]\<rparr>)"
  by (simp add: load_binary_def io_bind_def emit_def split: option.splits)

lemma load_binary_quiet: "load_binary path w = (r, w') \<Longrightarrow> quiet w w'"
  by (auto simp add: load_binary_eq quiet_def)

lemma io_bind_cases:
  assumes "io_bind m f w = (r, w')"
  obtains (fail) e where "m w = (Inl e, w')" "r = Inl e"
        | (ok) x w1 where "m w = (Inr x, w1)" "f x w1 = (r, w')"
  using assms by (auto simp add: io_bind_def split: prod.splits sum.splits)

lemma module_init_quiet: "module_init w = (r, w') \<Longrightarrow> quiet w w'"
  unfolding module_init_def
  by (elim io_bind_cases) (auto simp add: io_return_def dest!: load_binary_quiet intro: quiet_trans)

lemma io_bind_load_binary:
  "io_bind (load_binary path) f w =
     (case files w path of
        None \<Rightarrow> (Inl (OSError path), w\<lparr>trace := trace w @ [OpenRead path]\<rparr>)
      | Some content \<Rightarrow> f content (w\<lparr>trace := trace w @ [OpenRead path]\<rparr>))"
  by (simp add: io_bind_def load_binary_eq split: option.splits)

lemma io_bind_return: "io_bind (io_return x) f w = f x w"
  by (simp add: io_bind_def io_return_def)

lemma io_bind_lift:
  "io_bind (io_lift (Inr x)) f w = f x w"
  "io_bind (io_lift (Inl e)) f w = (Inl e, w)"
  by (simp_all add: io_bind_def io_lift_def)

lemma io_bind_emit: "io_bind (emit ev) f w = f () (w\<lparr>trace := trace w @ [ev]\<rparr>)"
  by (simp add: io_bind_def emit_def)

lemma module_init_Inr:
  assumes "module_init w = (Inr st, w')"
  shows "files w ''static/header.bin'' = Some (header_data st) \<and>
         files w ''static/uboot.bin'' = Some (uboot_data st) \<and>
         files w ''static/metadata_header.bin'' = Some (metadata_header_data st) \<and>
         files w ''static/metadata_footer.bin'' = Some (metadata_footer_data st)"
  using assms
  by (auto simp add: module_init_def io_bind_load_binary io_return_def split: option.splits)

lemma module_init_ok:
  assumes "files w ''static/header.bin'' = Some h"
          "files w ''static/uboot.bin'' = Some u"
          "files w ''static/metadata_header.bin'' = Some mh"
          "files w ''static/metadata_footer.bin'' = Some mf"
  shows "module_init w =
    (Inr \<lparr>header_data = h, uboot_data = u, metadata_header_data = mh, metadata_footer_data = mf\<rparr>,
     w\<lparr>trace := trace w @ [OpenRead ''static/header.bin'', OpenRead ''static/uboot.bin'',
        OpenRead ''static/metadata_header.bin'', OpenRead ''static/metadata_footer.bin'']\<rparr>)"
  using assms
  by (simp add: module_init_def io_bind_load_binary io_return_def)

lemma load_user_data_quiet: "load_user_data a w = (r, w') \<Longrightarrow> quiet w w'"
  unfolding load_user_data_def
  by (elim io_bind_cases)
     (auto simp add: io_return_def split: option.splits if_splits
           dest!: load_binary_quiet intro: quiet_trans)

lemma load_user_data_Inr:
  assumes "load_user_data a w = (Inr (kd, rd, sd), w')"
  shows "files w (arg_kernel a) = Some kd \<and> files w (arg_rootfs a) = Some rd \<and>
         (case arg_ramdisk a of
            None \<Rightarrow> sd = kd
          | Some p \<Rightarrow> if p = [] then sd = kd else files w p = Some sd)"
  using assms
  by (auto simp add: load_user_data_def io_bind_load_binary io_bind_return io_return_def
           split: option.splits if_splits)

lemma load_user_data_fails:
  assumes "files w (arg_kernel a) = None \<or> files w (arg_rootfs a) = None \<or>
         (\<exists>p. arg_ramdisk a = Some p \<and> p \<noteq> [] \<and> files w p = None)"
  shows "\<exists>e w'. load_user_data a w = (Inl e, w')"
  using assms
  by (auto simp add: load_user_data_def io_bind_load_binary io_bind_return io_return_def
           split: option.splits if_splits)

section \<open>The run of \<open>main\<close>\<close>

lemma append_data_padded:
  "append_data original data 16 =
     Inr (original @ padded_spec (length original) data,
          int (length (padded_spec (length original) data)))"
  by (simp add: append_data_16 padded_spec_def)

lemma padded_spec_aligned: "16 dvd (off + length (padded_spec off s))"
  using pad_total [of "off + length s"] by (simp add: padded_spec_def add.assoc)

lemma padded_spec_0: "16 dvd off \<Longrightarrow> padded_spec off s = padded_spec 0 s"
  by (simp add: padded_spec_def pad_shift)

lemma length_padded_spec_0: "16 dvd length (padded_spec 0 s)"
  using padded_spec_aligned [of 0 s] by simp

lemma main_loaded:
  assumes pa: "parse_args cl = Inr a"
    and ld: "load_user_data a w = (Inr (kd, rd, sd), w1)"
  shows "main st cl w =
    (let R = padded_spec (length (header_data st)) rd;
         K = padded_spec 0 kd;
         U = padded_spec 0 (uboot_data st);
         S = padded_spec 0 sd;
         buf = header_data st @ R @ K @ U @ S @ metadata_header_data st;
         evs = [Print ''Rootfs'' (int (length R)), Print ''Kernel'' (int (length K)),
                Print ''Uboot'' (int (length U)), Print ''Ramdisk'' (int (length S))]
     in case pack_metadata \<lparr>crc32_checksum = crc32 (drop 32 buf),
               primary_kernel_size = int (length K),
               squashfs_size = int (length R),
               uboot_size = int (length U),
               backup_kernel_size = int (length S)\<rparr> of
          Inl e \<Rightarrow> (Inl e, w1\<lparr>trace := trace w1 @ evs\<rparr>)
        | Inr block \<Rightarrow>
            if arg_output a \<in> unwritable w1
            then (Inl (OSError (arg_output a)),
                  w1\<lparr>trace := trace w1 @ evs @ [OpenWrite (arg_output a)]\<rparr>)
            else (Inr (),
                  w1\<lparr>trace := trace w1 @ evs @ [OpenWrite (arg_output a)],
                     files := (files w1)(arg_output a \<mapsto> buf @ block @ metadata_footer_data st)\<rparr>))"
proof -
  let ?h = "header_data st"
  let ?R = "padded_spec (length ?h) rd"
  have al1: "16 dvd length (?h @ ?R)"
    using padded_spec_aligned [of "length ?h" rd] by simp
  have k: "padded_spec (length (?h @ ?R)) kd = padded_spec 0 kd"
    by (rule padded_spec_0) (rule al1)
  have al2: "16 dvd length (?h @ ?R @ padded_spec 0 kd)"
    using dvd_add [OF al1 length_padded_spec_0 [of kd]] by (simp add: add.assoc)
  have u: "padded_spec (length (?h @ ?R @ padded_spec 0 kd)) (uboot_data st)
            = padded_spec 0 (uboot_data st)"
    by (rule padded_spec_0) (rule al2)
  have al3: "16 dvd length (?h @ ?R @ padded_spec 0 kd @ padded_spec 0 (uboot_data st))"
    using dvd_add [OF al2 length_padded_spec_0 [of "uboot_data st"]] by (simp add: add.assoc)
  have s: "padded_spec (length (?h @ ?R @ padded_spec 0 kd @ padded_spec 0 (uboot_data st))) sd
            = padded_spec 0 sd"
    by (rule padded_spec_0) (rule al3)
  have step: "\<And>f. io_bind (load_user_data a) f w = f (kd, rd, sd) w1"
    by (simp add: io_bind_def ld)
  show ?thesis
    unfolding main_def Let_def
    apply (simp only: pa io_bind_lift step case_prod_conv append_data_padded io_bind_emit)
    apply (simp only: append_assoc [symmetric] k)
    apply (simp only: append_assoc k u s)
    apply (simp add: io_bind_def io_lift_def emit_def split: sum.splits)
    done
qed

lemma main_parse_fail: "parse_args cl = Inl e \<Longrightarrow> main st cl w = (Inl e, w)"
  by (simp add: main_def io_bind_lift)

lemma main_load_fail:
  assumes "parse_args cl = Inr a" "load_user_data a w = (Inl e, w1)"
  shows "main st cl w = (Inl e, w1)"
proof -
  have step: "\<And>f. io_bind (load_user_data a) f w = (Inl e, w1)"
    by (simp add: io_bind_def assms)
  show ?thesis
    unfolding main_def Let_def by (simp only: assms io_bind_lift step)
qed

lemma parse_args_Inr:
  "parse_args cl = Inr a \<Longrightarrow>
     opt_output cl = Some (arg_output a) \<and> opt_kernel cl = Some (arg_kernel a) \<and>
     opt_rootfs cl = Some (arg_rootfs a) \<and> arg_ramdisk a = opt_ramdisk cl"
  by (auto simp add: parse_args_def split: option.splits)

lemma parse_args_missing:
  "opt_output cl = None \<or> opt_kernel cl = None \<or> opt_rootfs cl = None \<Longrightarrow>
     parse_args cl = Inl ArgparseExit"
  by (auto simp add: parse_args_def split: option.splits)

lemma program_success:
  assumes run: "program cl w = (Inr (), w')"
  obtains out k r h u mh mf kd rd sd block where
    "opt_output cl = Some out" "opt_kernel cl = Some k" "opt_rootfs cl = Some r"
    "files w ''static/header.bin'' = Some h"
    "files w ''static/uboot.bin'' = Some u"
    "files w ''static/metadata_header.bin'' = Some mh"
    "files w ''static/metadata_footer.bin'' = Some mf"
    "files w k = Some kd" "files w r = Some rd"
    "case opt_ramdisk cl of None \<Rightarrow> sd = kd
     | Some p \<Rightarrow> if p = [] then sd = kd else files w p = Some sd"
    "pack_metadata
       \<lparr>crc32_checksum = crc32 (drop 32 (h @ padded_spec (length h) rd @ padded_spec 0 kd
                              @ padded_spec 0 u @ padded_spec 0 sd @ mh)),
        primary_kernel_size = int (length (padded_spec 0 kd)),
        squashfs_size = int (length (padded_spec (length h) rd)),
        uboot_size = int (length (padded_spec 0 u)),
        backup_kernel_size = int (length (padded_spec 0 sd))\<rparr> = Inr block"
    "out \<notin> unwritable w"
    "files w' = (files w)(out \<mapsto> h @ padded_spec (length h) rd @ padded_spec 0 kd
                              @ padded_spec 0 u @ padded_spec 0 sd @ mh @ block @ mf)"
proof -
  from run obtain st w0 where
    init: "module_init w = (Inr st, w0)" and mn: "main st cl w0 = (Inr (), w')"
    unfolding program_def by (elim io_bind_cases) auto
  have q0: "quiet w w0" using init by (rule module_init_quiet)
  obtain a where pa: "parse_args cl = Inr a"
  proof (cases "parse_args cl")
    case (Inl e)
    then show ?thesis using mn main_parse_fail [of cl e st w0] by simp
  next
    case (Inr a)
    then show ?thesis using that by simp
  qed
  obtain r1 w1 where ld: "load_user_data a w0 = (r1, w1)"
    by (cases "load_user_data a w0") auto
  have q1: "quiet w0 w1" using ld by (rule load_user_data_quiet)
  obtain kd rd sd where r1: "r1 = Inr (kd, rd, sd)"
  proof (cases r1)
    case (Inl e)
    then show ?thesis using mn main_load_fail [OF pa, of w0 e w1 st] ld by simp
  next
    case (Inr t)
    then show ?thesis using that by (cases t) auto
  qed
  note ml = main_loaded [OF pa ld [unfolded r1], of st]
  let ?h = "header_data st" and ?u = "uboot_data st"
  let ?mh = "metadata_header_data st" and ?mf = "metadata_footer_data st"
  let ?buf = "?h @ padded_spec (length ?h) rd @ padded_spec 0 kd
                @ padded_spec 0 ?u @ padded_spec 0 sd @ ?mh"
  let ?m = "\<lparr>crc32_checksum = crc32 (drop 32 ?buf),
        primary_kernel_size = int (length (padded_spec 0 kd)),
        squashfs_size = int (length (padded_spec (length ?h) rd)),
        uboot_size = int (length (padded_spec 0 ?u)),
        backup_kernel_size = int (length (padded_spec 0 sd))\<rparr>"
  obtain block where pk: "pack_metadata ?m = Inr block"
  proof (cases "pack_metadata ?m")
    case (Inl e)
    then show ?thesis using mn ml by (simp add: Let_def)
  next
    case (Inr b)
    then show ?thesis using that by simp
  qed
  have wr: "arg_output a \<notin> unwritable w1"
    using mn ml pk by (auto simp add: Let_def split: if_splits)
  have fw': "files w' = (files w1)(arg_output a \<mapsto> ?buf @ block @ ?mf)"
    using mn ml pk wr by (auto simp add: Let_def)
  have f1: "files w1 = files w" "files w0 = files w" "unwritable w1 = unwritable w"
    using q0 q1 by (simp_all add: quiet_def)
  note st = module_init_Inr [OF init]
  note us = load_user_data_Inr [OF ld [unfolded r1], unfolded f1]
  note ar = parse_args_Inr [OF pa]
  show ?thesis
  proof (rule that [of "arg_output a" "arg_kernel a" "arg_rootfs a" ?h ?u ?mh ?mf kd rd sd block])
    show "case opt_ramdisk cl of None \<Rightarrow> sd = kd
     | Some p \<Rightarrow> if p = [] then sd = kd else files w p = Some sd"
      using us ar by simp
    show "files w' = (files w)(arg_output a \<mapsto>
        ?h @ padded_spec (length ?h) rd @ padded_spec 0 kd
                @ padded_spec 0 ?u @ padded_spec 0 sd @ ?mh @ block @ ?mf)"
      using fw' f1 by simp
  qed (use st us ar pk wr f1 in simp_all)
qed

section \<open>A worked run\<close>

lemma crc32_update_unfold:
  "crc32_update c b =
     crc32_shift (crc32_shift (crc32_shift (crc32_shift
       (crc32_shift (crc32_shift (crc32_shift (crc32_shift (c XOR ucast b))))))))"
  by (simp add: crc32_update_def eval_nat_numeral)

text \<open>The check value of CRC-32: the checksum of the ASCII digits \<open>123456789\<close>.\<close>

lemma crc32_check_value:
  "crc32 [0x31, 0x32, 0x33, 0x34, 0x35, 0x36, 0x37, 0x38, 0x39] = 0xCBF43926"
  by (simp add: crc32_def crc32_update_unfold crc32_shift_def)

lemma replicate_explicit:
  "replicate 15 (x :: byte) = [x, x, x, x, x, x, x, x, x, x, x, x, x, x, x]"
  "replicate 16 (x :: byte) = [x, x, x, x, x, x, x, x, x, x, x, x, x, x, x, x]"
  "replicate 17 (x :: byte) = [x, x, x, x, x, x, x, x, x, x, x, x, x, x, x, x, x]"
  by (simp_all add: numeral_eq_Suc)

lemma example_crc_state:
  "foldl crc32_update 0xFFFFFFFF example_sections = 1425687199"
  by (simp add: example_sections_def replicate_explicit crc32_update_unfold crc32_shift_def)

lemma example_crc_sections: "crc32 example_sections = 0xAB05BD60"
  by (simp add: crc32_def example_crc_state)

lemma example_crc_checksummed: "crc32 (example_sections @ [0x01]) = 0xE81CBBFE"
  by (simp add: crc32_def example_crc_state crc32_update_unfold crc32_shift_def)

lemma example_files:
  "files example_world ''static/header.bin'' = Some (replicate 32 0x00)"
  "files example_world ''static/uboot.bin'' = Some [0xCC]"
  "files example_world ''static/metadata_header.bin'' = Some [0x01]"
  "files example_world ''static/metadata_footer.bin'' = Some [0x02]"
  "files example_world ''kernel.bin'' = Some (replicate 16 0xBB)"
  "files example_world ''rootfs.bin'' = Some (replicate 17 0xAA)"
  by (simp_all add: example_world_def)

lemma example_padded:
  "padded_spec (length (replicate 32 (0x00 :: byte))) (replicate 17 0xAA)
     = replicate 17 0xAA @ replicate 15 0x00"
  "padded_spec 0 (replicate 16 0xBB) = replicate 16 0xBB @ replicate 16 0x00"
  "padded_spec 0 [0xCC] = [0xCC] @ replicate 15 0x00"
  by (simp_all add: padded_spec_def)

lemma example_run:
  "program example_cmdline example_world =
     (Inr (),
      example_world
        \<lparr>trace := [OpenRead ''static/header.bin'', OpenRead ''static/uboot.bin'',
                   OpenRead ''static/metadata_header.bin'',
                   OpenRead ''static/metadata_footer.bin'',
                   OpenRead ''kernel.bin'', OpenRead ''rootfs.bin'',
                   Print ''Rootfs'' 32, Print ''Kernel'' 32, Print ''Uboot'' 16,
                   Print ''Ramdisk'' 32, OpenWrite ''out.bin''],
         files := (files example_world)(''out.bin'' \<mapsto> example_image)\<rparr>)"
proof -
  let ?st = "\<lparr>header_data = replicate 32 0x00, uboot_data = [0xCC],
              metadata_header_data = [0x01], metadata_footer_data = [0x02]\<rparr>"
  let ?a = "\<lparr>arg_output = ''out.bin'', arg_kernel = ''kernel.bin'',
             arg_rootfs = ''rootfs.bin'', arg_ramdisk = None\<rparr>"
  let ?w0 = "example_world\<lparr>trace := trace example_world @
        [OpenRead ''static/header.bin'', OpenRead ''static/uboot.bin'',
         OpenRead ''static/metadata_header.bin'', OpenRead ''static/metadata_footer.bin'']\<rparr>"
  let ?w1 = "?w0\<lparr>trace := trace ?w0 @ [OpenRead ''kernel.bin'', OpenRead ''rootfs.bin'']\<rparr>"
  have init: "module_init example_world = (Inr ?st, ?w0)"
    by (rule module_init_ok) (rule example_files)+
  have pa: "parse_args example_cmdline = Inr ?a"
    by (simp add: parse_args_def example_cmdline_def)
  have ld: "load_user_data ?a ?w0 =
      (Inr (replicate 16 0xBB, replicate 17 0xAA, replicate 16 0xBB), ?w1)"
    by (simp add: load_user_data_def io_bind_load_binary io_bind_return io_return_def
        example_files)
  have buf: "drop 32 (replicate 32 (0x00 :: byte) @ (replicate 17 0xAA @ replicate 15 0x00)
        @ (replicate 16 0xBB @ replicate 16 0x00) @ ([0xCC] @ replicate 15 0x00)
        @ (replicate 16 0xBB @ replicate 16 0x00) @ [0x01]) = example_sections @ [0x01]"
    by (simp add: example_sections_def)
  have pk: "pack_metadata \<lparr>crc32_checksum = 0xE81CBBFE, primary_kernel_size = 32,
      squashfs_size = 32, uboot_size = 16, backup_kernel_size = 32\<rparr> = Inr example_block"
    by (simp add: pack_metadata_cases packable_def le32_spec_def example_block_def)
  have mn: "main ?st example_cmdline ?w0 =
     (Inr (),
      ?w1\<lparr>trace := trace ?w1 @ [Print ''Rootfs'' 32, Print ''Kernel'' 32, Print ''Uboot'' 16,
                   Print ''Ramdisk'' 32] @ [OpenWrite ''out.bin''],
         files := (files ?w1)(''out.bin'' \<mapsto> example_image)\<rparr>)"
    unfolding main_loaded [OF pa ld] Let_def
    apply (simp only: statics.simps args.simps example_padded)
    apply (simp only: buf example_crc_checksummed)
    apply (simp add: pk example_world_def example_image_def example_sections_def)
    done
  show ?thesis
    unfolding program_def
    apply (simp only: io_bind_def init prod.case sum.case mn)
    apply (simp add: example_world_def)
    done
qed

section \<open>The output image\<close>

lemma example_run_result: "program example_cmdline example_world = (Inr (), example_result)"
  unfolding example_result_def by (rule example_run)

lemma pack_metadata_InrD:
  assumes "pack_metadata m = Inr block"
  shows "length block = 44"
    and "le_value (take 4 block) = crc32_checksum m"
    and "le_value (take 4 (drop 8 block)) = squashfs_size m"
proof -
  have p: "packable m"
    using assms by (simp add: pack_metadata_cases split: if_splits)
  then have b: "block = le32_spec (crc32_checksum m) @ le32_spec (primary_kernel_size m)
             @ le32_spec (squashfs_size m) @ le32_spec (uboot_size m)
             @ [0, 0, 0, 0, 0, 0, 0, 0, 0, 0, 0, 0] @ [7, 0, 0, 0]
             @ le32_spec (backup_kernel_size m + 40) @ [2, 0, 0, 0] @ [0x70, 5, 0, 0]"
    using assms by (simp add: pack_metadata_cases)
  show "length block = 44" by (simp add: b)
  show "le_value (take 4 block) = crc32_checksum m"
    using p by (simp add: b le_value_le32_spec packable_def)
  show "le_value (take 4 (drop 8 block)) = squashfs_size m"
    using p by (simp add: b le_value_le32_spec packable_def)
qed

text \<open>
  Claim C5. On a successful run the file written at the output path is the header blob,
  the padded rootfs, the padded kernel, the padded bootloader, the padded secondary
  kernel, the metadata-header template, the computed metadata block and the
  metadata-footer template, in this order and with nothing else; the raw bytes of the
  secondary kernel are the kernel's when \<^verbatim>\<open>--ramdisk\<close> is not given. (After the first
  append the buffer is aligned, so each later section is padded as if it stood alone.)
\<close>

theorem output_image_layout:
  assumes "program cl w = (Inr (), w')"
  shows "\<exists>out k r h u mh mf kd rd sd block.
    opt_output cl = Some out \<and> opt_kernel cl = Some k \<and> opt_rootfs cl = Some r \<and>
    files w ''static/header.bin'' = Some h \<and>
    files w ''static/uboot.bin'' = Some u \<and>
    files w ''static/metadata_header.bin'' = Some mh \<and>
    files w ''static/metadata_footer.bin'' = Some mf \<and>
    files w k = Some kd \<and> files w r = Some rd \<and>
    (opt_ramdisk cl = None \<longrightarrow> sd = kd) \<and>
    (\<forall>p. opt_ramdisk cl = Some p \<longrightarrow> (if p = [] then sd = kd else files w p = Some sd)) \<and>
    pack_metadata
       \<lparr>crc32_checksum = crc32 (drop 32 (h @ padded_spec (length h) rd @ padded_spec 0 kd
                              @ padded_spec 0 u @ padded_spec 0 sd @ mh)),
        primary_kernel_size = int (length (padded_spec 0 kd)),
        squashfs_size = int (length (padded_spec (length h) rd)),
        uboot_size = int (length (padded_spec 0 u)),
        backup_kernel_size = int (length (padded_spec 0 sd))\<rparr> = Inr block \<and>
    files w' out = Some (h @ padded_spec (length h) rd @ padded_spec 0 kd
                           @ padded_spec 0 u @ padded_spec 0 sd @ mh @ block @ mf)"
proof -
  from assms obtain out k r h u mh mf kd rd sd block where f:
    "opt_output cl = Some out" "opt_kernel cl = Some k" "opt_rootfs cl = Some r"
    "files w ''static/header.bin'' = Some h"
    "files w ''static/uboot.bin'' = Some u"
    "files w ''static/metadata_header.bin'' = Some mh"
    "files w ''static/metadata_footer.bin'' = Some mf"
    "files w k = Some kd" "files w r = Some rd"
    "case opt_ramdisk cl of None \<Rightarrow> sd = kd
     | Some p \<Rightarrow> if p = [] then sd = kd else files w p = Some sd"
    "pack_metadata
       \<lparr>crc32_checksum = crc32 (drop 32 (h @ padded_spec (length h) rd @ padded_spec 0 kd
                              @ padded_spec 0 u @ padded_spec 0 sd @ mh)),
        primary_kernel_size = int (length (padded_spec 0 kd)),
        squashfs_size = int (length (padded_spec (length h) rd)),
        uboot_size = int (length (padded_spec 0 u)),
        backup_kernel_size = int (length (padded_spec 0 sd))\<rparr> = Inr block"
    "out \<notin> unwritable w"
    "files w' = (files w)(out \<mapsto> h @ padded_spec (length h) rd @ padded_spec 0 kd
                              @ padded_spec 0 u @ padded_spec 0 sd @ mh @ block @ mf)"
    by (rule program_success)
  have rd1: "opt_ramdisk cl = None \<longrightarrow> sd = kd"
    using f(10) by (simp split: option.splits)
  have rd2: "\<forall>p. opt_ramdisk cl = Some p \<longrightarrow> (if p = [] then sd = kd else files w p = Some sd)"
    using f(10) by (simp split: option.splits)
  have img: "files w' out = Some (h @ padded_spec (length h) rd @ padded_spec 0 kd
                           @ padded_spec 0 u @ padded_spec 0 sd @ mh @ block @ mf)"
    using f(13) by simp
  show ?thesis
    apply (rule exI [of _ out], rule exI [of _ k], rule exI [of _ r], rule exI [of _ h])
    apply (rule exI [of _ u], rule exI [of _ mh], rule exI [of _ mf], rule exI [of _ kd])
    apply (rule exI [of _ rd], rule exI [of _ sd], rule exI [of _ block])
    apply (intro conjI)
    apply (rule f(1) f(2) f(3) f(4) f(5) f(6) f(7) f(8) f(9) rd1 rd2 f(11) img)+
    done
qed

theorem output_image_layout_witness:
  "program example_cmdline example_world = (Inr (), example_result) \<and>
   opt_ramdisk example_cmdline = None \<and>
   (\<exists>block.
      pack_metadata
       \<lparr>crc32_checksum = crc32 (drop 32 (replicate 32 0x00
            @ padded_spec 32 (replicate 17 0xAA) @ padded_spec 0 (replicate 16 0xBB)
            @ padded_spec 0 [0xCC] @ padded_spec 0 (replicate 16 0xBB) @ [0x01])),
        primary_kernel_size = int (length (padded_spec 0 (replicate 16 (0xBB :: byte)))),
        squashfs_size = int (length (padded_spec 32 (replicate 17 (0xAA :: byte)))),
        uboot_size = int (length (padded_spec 0 [0xCC :: byte])),
        backup_kernel_size = int (length (padded_spec 0 (replicate 16 (0xBB :: byte))))\<rparr>
        = Inr block \<and>
      files example_result ''out.bin'' =
        Some (replicate 32 0x00
            @ padded_spec 32 (replicate 17 0xAA) @ padded_spec 0 (replicate 16 0xBB)
            @ padded_spec 0 [0xCC] @ padded_spec 0 (replicate 16 0xBB) @ [0x01]
            @ block @ [0x02]))"
  using output_image_layout [OF example_run_result] example_run_result
  by (auto simp add: example_files example_cmdline_def)

section \<open>The checksum\<close>

lemma padded_spec_0_ge: "16 \<le> length (padded_spec 0 s)"
proof -
  have "0 < length (padded_spec 0 s)" by (simp add: padded_spec_def)
  with length_padded_spec_0 [of s] show ?thesis by (rule dvd_imp_le)
qed

lemma program_success_image:
  assumes run: "program cl w = (Inr (), w')"
  obtains out k r h u mh mf kd rd sd block where
    "opt_output cl = Some out" "opt_kernel cl = Some k" "opt_rootfs cl = Some r"
    "files w ''static/header.bin'' = Some h"
    "files w ''static/uboot.bin'' = Some u"
    "files w ''static/metadata_header.bin'' = Some mh"
    "files w ''static/metadata_footer.bin'' = Some mf"
    "files w k = Some kd" "files w r = Some rd"
    "opt_ramdisk cl = None \<longrightarrow> sd = kd"
    "\<forall>p. opt_ramdisk cl = Some p \<longrightarrow> (if p = [] then sd = kd else files w p = Some sd)"
    "length block = 44"
    "le_value (take 4 block) =
       crc32 (drop 32 (h @ padded_spec (length h) rd @ padded_spec 0 kd
                         @ padded_spec 0 u @ padded_spec 0 sd @ mh))"
    "le_value (take 4 (drop 8 block)) = int (length (padded_spec (length h) rd))"
    "files w' out = Some ((h @ padded_spec (length h) rd @ padded_spec 0 kd
                             @ padded_spec 0 u @ padded_spec 0 sd @ mh) @ block @ mf)"
proof -
  from run obtain out k r h u mh mf kd rd sd block where f:
    "opt_output cl = Some out" "opt_kernel cl = Some k" "opt_rootfs cl = Some r"
    "files w ''static/header.bin'' = Some h"
    "files w ''static/uboot.bin'' = Some u"
    "files w ''static/metadata_header.bin'' = Some mh"
    "files w ''static/metadata_footer.bin'' = Some mf"
    "files w k = Some kd" "files w r = Some rd"
    "case opt_ramdisk cl of None \<Rightarrow> sd = kd
     | Some p \<Rightarrow> if p = [] then sd = kd else files w p = Some sd"
    "pack_metadata
       \<lparr>crc32_checksum = crc32 (drop 32 (h @ padded_spec (length h) rd @ padded_spec 0 kd
                              @ padded_spec 0 u @ padded_spec 0 sd @ mh)),
        primary_kernel_size = int (length (padded_spec 0 kd)),
        squashfs_size = int (length (padded_spec (length h) rd)),
        uboot_size = int (length (padded_spec 0 u)),
        backup_kernel_size = int (length (padded_spec 0 sd))\<rparr> = Inr block"
    "out \<notin> unwritable w"
    "files w' = (files w)(out \<mapsto> h @ padded_spec (length h) rd @ padded_spec 0 kd
                              @ padded_spec 0 u @ padded_spec 0 sd @ mh @ block @ mf)"
    by (rule program_success)
  note d = pack_metadata_InrD [OF f(11)]
  have rd1: "opt_ramdisk cl = None \<longrightarrow> sd = kd"
    using f(10) by (simp split: option.splits)
  have rd2: "\<forall>p. opt_ramdisk cl = Some p \<longrightarrow> (if p = [] then sd = kd else files w p = Some sd)"
    using f(10) by (simp split: option.splits)
  show ?thesis
  proof (rule that [of out k r h u mh mf kd rd sd block])
    show "le_value (take 4 block) =
       crc32 (drop 32 (h @ padded_spec (length h) rd @ padded_spec 0 kd
                         @ padded_spec 0 u @ padded_spec 0 sd @ mh))"
      using d(2) by simp
    show "le_value (take 4 (drop 8 block)) = int (length (padded_spec (length h) rd))"
      using d(3) by simp
    show "files w' out = Some ((h @ padded_spec (length h) rd @ padded_spec 0 kd
                             @ padded_spec 0 u @ padded_spec 0 sd @ mh) @ block @ mf)"
      using f(13) by simp
  qed (rule f(1) f(2) f(3) f(4) f(5) f(6) f(7) f(8) f(9) rd1 rd2 d(1))+
qed

text \<open>
  Claim C3. On a successful run the first word of the metadata block is the CRC-32 of the
  buffer from byte 32 to its end, taken right after the metadata-header template has
  been appended: the buffer is the header, the four padded sections and the template,
  the block and the footer come after it in the file, and with a header of 32 bytes the
  checksummed range is exactly the four padded sections followed by the template.
\<close>

theorem checksum_over_buffer:
  assumes "program cl w = (Inr (), w')"
  shows "\<exists>out k r h u mh mf kd rd sd block.
    opt_output cl = Some out \<and> opt_kernel cl = Some k \<and> opt_rootfs cl = Some r \<and>
    files w ''static/header.bin'' = Some h \<and>
    files w ''static/uboot.bin'' = Some u \<and>
    files w ''static/metadata_header.bin'' = Some mh \<and>
    files w ''static/metadata_footer.bin'' = Some mf \<and>
    files w k = Some kd \<and> files w r = Some rd \<and>
    (opt_ramdisk cl = None \<longrightarrow> sd = kd) \<and>
    (\<forall>p. opt_ramdisk cl = Some p \<longrightarrow> (if p = [] then sd = kd else files w p = Some sd)) \<and>
    files w' out = Some ((h @ padded_spec (length h) rd @ padded_spec 0 kd
                            @ padded_spec 0 u @ padded_spec 0 sd @ mh) @ block @ mf) \<and>
    length block = 44 \<and>
    le_value (take 4 block) =
      crc32 (drop 32 (h @ padded_spec (length h) rd @ padded_spec 0 kd
                        @ padded_spec 0 u @ padded_spec 0 sd @ mh)) \<and>
    (length h = 32 \<longrightarrow>
      drop 32 (h @ padded_spec (length h) rd @ padded_spec 0 kd
                 @ padded_spec 0 u @ padded_spec 0 sd @ mh)
        = padded_spec 32 rd @ padded_spec 0 kd @ padded_spec 0 u @ padded_spec 0 sd @ mh)"
proof -
  from assms obtain out k r h u mh mf kd rd sd block where f:
    "opt_output cl = Some out" "opt_kernel cl = Some k" "opt_rootfs cl = Some r"
    "files w ''static/header.bin'' = Some h"
    "files w ''static/uboot.bin'' = Some u"
    "files w ''static/metadata_header.bin'' = Some mh"
    "files w ''static/metadata_footer.bin'' = Some mf"
    "files w k = Some kd" "files w r = Some rd"
    "opt_ramdisk cl = None \<longrightarrow> sd = kd"
    "\<forall>p. opt_ramdisk cl = Some p \<longrightarrow> (if p = [] then sd = kd else files w p = Some sd)"
    "length block = 44"
    "le_value (take 4 block) =
       crc32 (drop 32 (h @ padded_spec (length h) rd @ padded_spec 0 kd
                         @ padded_spec 0 u @ padded_spec 0 sd @ mh))"
    "le_value (take 4 (drop 8 block)) = int (length (padded_spec (length h) rd))"
    "files w' out = Some ((h @ padded_spec (length h) rd @ padded_spec 0 kd
                             @ padded_spec 0 u @ padded_spec 0 sd @ mh) @ block @ mf)"
    by (rule program_success_image)
  have rng: "length h = 32 \<longrightarrow>
      drop 32 (h @ padded_spec (length h) rd @ padded_spec 0 kd
                 @ padded_spec 0 u @ padded_spec 0 sd @ mh)
        = padded_spec 32 rd @ padded_spec 0 kd @ padded_spec 0 u @ padded_spec 0 sd @ mh"
    by simp
  show ?thesis
    apply (rule exI [of _ out], rule exI [of _ k], rule exI [of _ r], rule exI [of _ h])
    apply (rule exI [of _ u], rule exI [of _ mh], rule exI [of _ mf], rule exI [of _ kd])
    apply (rule exI [of _ rd], rule exI [of _ sd], rule exI [of _ block])
    apply (intro conjI)
    apply (rule f(1) f(2) f(3) f(4) f(5) f(6) f(7) f(8) f(9) f(10) f(11) f(15) f(12) f(13) rng)+
    done
qed

text \<open>
  Claim C2, as the code has it. In the file written by a successful run the checksum
  field is the word at offset \<open>n\<close>, 44 bytes and the footer before the end; it is the
  CRC-32 of the image bytes from offset 32 up to \<open>n\<close>, and the last bytes of that range
  are the metadata-header template, which lies in it as a whole. So the checksum covers
  the template as well as the four padded sections.
\<close>

theorem checksum_field_covers_template:
  assumes run: "program cl w = (Inr (), w')"
    and out: "opt_output cl = Some out"
    and img: "files w' out = Some img"
    and mh: "files w ''static/metadata_header.bin'' = Some mh"
    and mf: "files w ''static/metadata_footer.bin'' = Some mf"
    and n: "n = length img - length mf - 44"
  shows "le_value (take 4 (drop n img)) = crc32 (drop 32 (take n img)) \<and>
         32 + length mh \<le> n \<and> n + 44 + length mf = length img \<and>
         drop (n - length mh) (take n img) = mh"
proof -
  from run obtain out' k r h u mh' mf' kd rd sd block where f:
    "opt_output cl = Some out'" "opt_kernel cl = Some k" "opt_rootfs cl = Some r"
    "files w ''static/header.bin'' = Some h"
    "files w ''static/uboot.bin'' = Some u"
    "files w ''static/metadata_header.bin'' = Some mh'"
    "files w ''static/metadata_footer.bin'' = Some mf'"
    "files w k = Some kd" "files w r = Some rd"
    "opt_ramdisk cl = None \<longrightarrow> sd = kd"
    "\<forall>p. opt_ramdisk cl = Some p \<longrightarrow> (if p = [] then sd = kd else files w p = Some sd)"
    "length block = 44"
    "le_value (take 4 block) =
       crc32 (drop 32 (h @ padded_spec (length h) rd @ padded_spec 0 kd
                         @ padded_spec 0 u @ padded_spec 0 sd @ mh'))"
    "le_value (take 4 (drop 8 block)) = int (length (padded_spec (length h) rd))"
    "files w' out' = Some ((h @ padded_spec (length h) rd @ padded_spec 0 kd
                             @ padded_spec 0 u @ padded_spec 0 sd @ mh') @ block @ mf')"
    by (rule program_success_image)
  let ?body = "h @ padded_spec (length h) rd @ padded_spec 0 kd
                 @ padded_spec 0 u @ padded_spec 0 sd"
  let ?pre = "?body @ mh"
  have e: "out' = out" "mh' = mh" "mf' = mf"
    using f(1,6,7) out mh mf by simp_all
  have i: "img = ?pre @ block @ mf"
    using f(15) img e by simp
  have np: "n = length ?pre"
    using n f(12) by (simp add: i)
  have t: "take n img = ?pre" "drop n img = block @ mf"
    unfolding np i by simp_all
  have big: "32 \<le> length ?body"
    using padded_spec_0_ge [of kd] padded_spec_0_ge [of u] by simp
  have c1: "le_value (take 4 (drop n img)) = crc32 (drop 32 (take n img))"
    using f(13) f(12) e by (simp add: t)
  have c2: "32 + length mh \<le> n"
    using big unfolding np by simp
  have c3: "n + 44 + length mf = length img"
    unfolding np i using f(12) by simp
  have "n - length mh = length ?body" unfolding np by simp
  then have c4: "drop (n - length mh) (take n img) = mh"
    unfolding t by simp
  from c1 c2 c3 c4 show ?thesis by blast
qed

lemma example_lengths:
  "length example_sections = 112" "length example_block = 44" "length example_image = 190"
  by (simp_all add: example_sections_def example_block_def example_image_def)

lemma example_result_files:
  "files example_result ''out.bin'' = Some example_image"
  by (simp add: example_result_def)

theorem checksum_over_buffer_witness:
  "program example_cmdline example_world = (Inr (), example_result) \<and>
   length (replicate 32 (0x00 :: byte)) = 32 \<and>
   (\<exists>block.
      files example_result ''out.bin'' =
        Some ((replicate 32 0x00
            @ padded_spec 32 (replicate 17 0xAA) @ padded_spec 0 (replicate 16 0xBB)
            @ padded_spec 0 [0xCC] @ padded_spec 0 (replicate 16 0xBB) @ [0x01])
            @ block @ [0x02]) \<and>
      length block = 44 \<and>
      le_value (take 4 block) =
        crc32 (padded_spec 32 (replicate 17 0xAA) @ padded_spec 0 (replicate 16 0xBB)
            @ padded_spec 0 [0xCC] @ padded_spec 0 (replicate 16 0xBB) @ [0x01]))"
  using checksum_over_buffer [OF example_run_result] example_run_result
  by (auto simp add: example_files example_cmdline_def)

theorem checksum_field_covers_template_witness:
  "program example_cmdline example_world = (Inr (), example_result) \<and>
   opt_output example_cmdline = Some ''out.bin'' \<and>
   files example_result ''out.bin'' = Some example_image \<and>
   files example_world ''static/metadata_header.bin'' = Some [0x01] \<and>
   files example_world ''static/metadata_footer.bin'' = Some [0x02] \<and>
   (145 :: nat) = length example_image - length [0x02 :: byte] - 44 \<and>
   le_value (take 4 (drop 145 example_image)) = crc32 (drop 32 (take 145 example_image)) \<and>
   drop (145 - length [0x01 :: byte]) (take 145 example_image) = [0x01]"
proof -
  have o: "opt_output example_cmdline = Some ''out.bin''"
    by (simp add: example_cmdline_def)
  have n: "(145 :: nat) = length example_image - length [0x02 :: byte] - 44"
    by (simp add: example_lengths)
  show ?thesis
    using checksum_field_covers_template
      [OF example_run_result o example_result_files example_files(3) example_files(4) n]
      example_run_result o example_result_files example_files(3) example_files(4)
    by (simp add: example_lengths)
qed

text \<open>
  Claim C2 as stated fails on the worked run: the image bytes from offset 32 to the end
  of the secondary kernel's padding are the four padded sections, whose CRC-32 is
  \<open>0xAB05BD60\<close>, while the checksum field of the metadata block, which starts at
  offset 145, holds \<open>0xE81CBBFE\<close>, the CRC-32 of the sections followed by the one-byte
  template.
\<close>

theorem checksum_excludes_template_counterexample:
  "program example_cmdline example_world = (Inr (), example_result) \<and>
   files example_result ''out.bin'' = Some example_image \<and>
   take 112 (drop 32 example_image) =
     (replicate 17 0xAA @ replicate 15 0x00) @ (replicate 16 0xBB @ replicate 16 0x00)
     @ ([0xCC] @ replicate 15 0x00) @ (replicate 16 0xBB @ replicate 16 0x00) \<and>
   crc32 (take 112 (drop 32 example_image)) = 0xAB05BD60 \<and>
   take 44 (drop 145 example_image) =
     [0xFE, 0xBB, 0x1C, 0xE8, 32, 0, 0, 0, 32, 0, 0, 0, 16, 0, 0, 0,
      0, 0, 0, 0, 0, 0, 0, 0, 0, 0, 0, 0, 7, 0, 0, 0,
      72, 0, 0, 0, 2, 0, 0, 0, 0x70, 5, 0, 0] \<and>
   le_value (take 4 (drop 145 example_image)) = 0xE81CBBFE \<and>
   le_value (take 4 (drop 145 example_image)) \<noteq> crc32 (take 112 (drop 32 example_image))"
proof -
  have s: "take 112 (drop 32 example_image) = example_sections"
    by (simp add: example_image_def example_lengths)
  have b: "take 44 (drop 145 example_image) = example_block"
    by (simp add: example_image_def example_lengths)
  have "take 4 (drop 145 example_image) = take 4 (take 44 (drop 145 example_image))"
    by simp
  then have v: "le_value (take 4 (drop 145 example_image)) = 0xE81CBBFE"
    unfolding b by (simp add: example_block_def)
  show ?thesis
    unfolding v
    using example_run_result example_result_files s b example_crc_sections
    by (simp add: example_sections_def example_block_def)
qed

section \<open>Section sizes and the order of effects\<close>

text \<open>
  Claim C7. When the header blob has exactly 32 bytes, the \<open>squashfs_size\<close> word of the
  metadata block (its third word) is the padded length of the rootfs section, and it is
  the offset, counted from the end of the 32-byte header, at which the kernel section
  starts in the image: the rootfs section fills the bytes before it.
\<close>

theorem squashfs_size_is_kernel_offset:
  assumes run: "program cl w = (Inr (), w')"
    and hdr: "files w ''static/header.bin'' = Some h"
    and len: "length h = 32"
  shows "\<exists>out k r kd rd mf block img sq.
    opt_output cl = Some out \<and> opt_kernel cl = Some k \<and> opt_rootfs cl = Some r \<and>
    files w k = Some kd \<and> files w r = Some rd \<and>
    files w ''static/metadata_footer.bin'' = Some mf \<and>
    files w' out = Some img \<and>
    drop (length img - length mf - 44) img = block @ mf \<and> length block = 44 \<and>
    le_value (take 4 (drop 8 block)) = int sq \<and>
    sq = length (padded_spec 32 rd) \<and>
    take sq (drop 32 img) = padded_spec 32 rd \<and>
    take (length (padded_spec 0 kd)) (drop (32 + sq) img) = padded_spec 0 kd"
proof -
  from run obtain out k r h' u mh mf kd rd sd block where f:
    "opt_output cl = Some out" "opt_kernel cl = Some k" "opt_rootfs cl = Some r"
    "files w ''static/header.bin'' = Some h'"
    "files w ''static/uboot.bin'' = Some u"
    "files w ''static/metadata_header.bin'' = Some mh"
    "files w ''static/metadata_footer.bin'' = Some mf"
    "files w k = Some kd" "files w r = Some rd"
    "opt_ramdisk cl = None \<longrightarrow> sd = kd"
    "\<forall>p. opt_ramdisk cl = Some p \<longrightarrow> (if p = [] then sd = kd else files w p = Some sd)"
    "length block = 44"
    "le_value (take 4 block) =
       crc32 (drop 32 (h' @ padded_spec (length h') rd @ padded_spec 0 kd
                         @ padded_spec 0 u @ padded_spec 0 sd @ mh))"
    "le_value (take 4 (drop 8 block)) = int (length (padded_spec (length h') rd))"
    "files w' out = Some ((h' @ padded_spec (length h') rd @ padded_spec 0 kd
                             @ padded_spec 0 u @ padded_spec 0 sd @ mh) @ block @ mf)"
    by (rule program_success_image)
  have hh: "h' = h" using f(4) hdr by simp
  let ?R = "padded_spec 32 rd" and ?K = "padded_spec 0 kd"
  let ?rest = "padded_spec 0 u @ padded_spec 0 sd @ mh"
  let ?img = "(h @ ?R @ ?K @ ?rest) @ block @ mf"
  have img: "files w' out = Some ?img"
    using f(15) by (simp add: hh len)
  have sq: "le_value (take 4 (drop 8 block)) = int (length ?R)"
    using f(14) by (simp add: hh len)
  have blk: "drop (length ?img - length mf - 44) ?img = block @ mf"
    using f(12) by simp
  have r1: "take (length ?R) (drop 32 ?img) = ?R"
    using len by simp
  have k1: "take (length ?K) (drop (32 + length ?R) ?img) = ?K"
    using len by simp
  show ?thesis
    apply (rule exI [of _ out], rule exI [of _ k], rule exI [of _ r], rule exI [of _ kd])
    apply (rule exI [of _ rd], rule exI [of _ mf], rule exI [of _ block])
    apply (rule exI [of _ ?img], rule exI [of _ "length ?R"])
    apply (intro conjI)
    apply (rule f(1) f(2) f(3) f(8) f(9) f(7) img blk f(12) sq refl r1 k1)+
    done
qed

theorem squashfs_size_is_kernel_offset_witness:
  "program example_cmdline example_world = (Inr (), example_result) \<and>
   files example_world ''static/header.bin'' = Some (replicate 32 0x00) \<and>
   length (replicate 32 (0x00 :: byte)) = 32 \<and>
   (\<exists>block img.
      files example_result ''out.bin'' = Some img \<and>
      drop (length img - length [0x02 :: byte] - 44) img = block @ [0x02] \<and>
      le_value (take 4 (drop 8 block)) = 32 \<and>
      take 32 (drop 32 img) = replicate 17 0xAA @ replicate 15 0x00 \<and>
      take 32 (drop 64 img) = replicate 16 0xBB @ replicate 16 0x00)"
proof -
  have l: "length (replicate 32 (0x00 :: byte)) = 32" by simp
  have p: "padded_spec 32 (replicate 17 0xAA) = replicate 17 0xAA @ replicate 15 0x00"
    "padded_spec 0 (replicate 16 0xBB) = replicate 16 0xBB @ replicate 16 0x00"
    by (simp_all add: padded_spec_def)
  show ?thesis
    using squashfs_size_is_kernel_offset [OF example_run_result example_files(1) l]
      example_run_result example_files(1)
    by (auto simp add: example_files example_cmdline_def p)
qed

text \<open>
  Claim C9, as the code has it. The four static blobs are loaded by the module body,
  before \<open>main\<close> parses the command line. When \<^verbatim>\<open>--kernel\<close> or \<^verbatim>\<open>--rootfs\<close> is absent and
  the four blobs are readable, the run ends with the parser's error after exactly these
  four reads; \<open>main\<close> itself does nothing before the error, so no caller-supplied file
  is read and the output is not opened.
\<close>

theorem missing_argument_after_static_loads:
  assumes miss: "opt_kernel cl = None \<or> opt_rootfs cl = None"
    and st: "files w ''static/header.bin'' = Some h"
          "files w ''static/uboot.bin'' = Some u"
          "files w ''static/metadata_header.bin'' = Some mh"
          "files w ''static/metadata_footer.bin'' = Some mf"
  shows "program cl w =
     (Inl ArgparseExit,
      w\<lparr>trace := trace w @ [OpenRead ''static/header.bin'', OpenRead ''static/uboot.bin'',
        OpenRead ''static/metadata_header.bin'', OpenRead ''static/metadata_footer.bin'']\<rparr>)
     \<and> main stx cl wx = (Inl ArgparseExit, wx)"
proof -
  have pa: "parse_args cl = Inl ArgparseExit"
    using miss by (auto intro: parse_args_missing)
  have mn: "\<And>s v. main s cl v = (Inl ArgparseExit, v)"
    using pa by (rule main_parse_fail)
  show ?thesis
    unfolding program_def
    by (simp only: io_bind_def module_init_ok [OF st] prod.case sum.case mn)
qed

theorem missing_argument_after_static_loads_witness:
  "opt_kernel (example_cmdline\<lparr>opt_kernel := None\<rparr>) = None \<and>
   files example_world ''static/header.bin'' = Some (replicate 32 0x00) \<and>
   files example_world ''static/uboot.bin'' = Some [0xCC] \<and>
   files example_world ''static/metadata_header.bin'' = Some [0x01] \<and>
   files example_world ''static/metadata_footer.bin'' = Some [0x02] \<and>
   program (example_cmdline\<lparr>opt_kernel := None\<rparr>) example_world =
     (Inl ArgparseExit,
      example_world\<lparr>trace := trace example_world @
        [OpenRead ''static/header.bin'', OpenRead ''static/uboot.bin'',
         OpenRead ''static/metadata_header.bin'', OpenRead ''static/metadata_footer.bin'']\<rparr>)"
proof -
  have m: "opt_kernel (example_cmdline\<lparr>opt_kernel := None\<rparr>) = None
        \<or> opt_rootfs (example_cmdline\<lparr>opt_kernel := None\<rparr>) = None"
    by simp
  show ?thesis
    using missing_argument_after_static_loads
      [OF m example_files(1) example_files(2) example_files(3) example_files(4)]
      example_files
    by simp
qed

text \<open>
  Claim C9 as stated fails: without \<^verbatim>\<open>--kernel\<close> the run on the example files ends with
  the parser's error, and its log, empty at the start, then holds the four reads of the
  static blobs.
\<close>

theorem missing_argument_reads_static_blobs_counterexample:
  "opt_kernel \<lparr>opt_output = Some ''out.bin'', opt_kernel = None,
               opt_rootfs = Some ''rootfs.bin'', opt_ramdisk = None\<rparr> = None \<and>
   trace example_world = [] \<and>
   program \<lparr>opt_output = Some ''out.bin'', opt_kernel = None,
            opt_rootfs = Some ''rootfs.bin'', opt_ramdisk = None\<rparr> example_world =
     (Inl ArgparseExit,
      example_world\<lparr>trace :=
        [OpenRead ''static/header.bin'', OpenRead ''static/uboot.bin'',
         OpenRead ''static/metadata_header.bin'', OpenRead ''static/metadata_footer.bin'']\<rparr>)"
proof -
  let ?cl = "\<lparr>opt_output = Some ''out.bin'', opt_kernel = None,
            opt_rootfs = Some ''rootfs.bin'', opt_ramdisk = None\<rparr>"
  have pa: "parse_args ?cl = Inl ArgparseExit"
    by (simp add: parse_args_def)
  have mn: "\<And>s v. main s ?cl v = (Inl ArgparseExit, v)"
    using pa by (rule main_parse_fail)
  have t: "trace example_world = []" by (simp add: example_world_def)
  have "program ?cl example_world =
     (Inl ArgparseExit,
      example_world\<lparr>trace := trace example_world @
        [OpenRead ''static/header.bin'', OpenRead ''static/uboot.bin'',
         OpenRead ''static/metadata_header.bin'', OpenRead ''static/metadata_footer.bin'']\<rparr>)"
    unfolding program_def
    by (simp only: io_bind_def
        module_init_ok [OF example_files(1) example_files(2) example_files(3) example_files(4)]
        prod.case sum.case mn)
  then show ?thesis using t by simp
qed

lemma quiet_no_write:
  assumes "quiet w w'" "trace w' = trace w @ evs"
  shows "OpenWrite out \<notin> set evs"
  using assms by (auto simp add: quiet_def)

lemma module_init_trace:
  assumes "module_init w = (Inr st, w0)"
  shows "trace w0 = trace w @ [OpenRead ''static/header.bin'', OpenRead ''static/uboot.bin'',
        OpenRead ''static/metadata_header.bin'', OpenRead ''static/metadata_footer.bin'']"
proof -
  note p = module_init_Inr [OF assms]
  have "module_init w = (Inr \<lparr>header_data = header_data st, uboot_data = uboot_data st,
      metadata_header_data = metadata_header_data st,
      metadata_footer_data = metadata_footer_data st\<rparr>,
     w\<lparr>trace := trace w @ [OpenRead ''static/header.bin'', OpenRead ''static/uboot.bin'',
        OpenRead ''static/metadata_header.bin'', OpenRead ''static/metadata_footer.bin'']\<rparr>)"
    by (rule module_init_ok) (simp_all add: p)
  with assms show ?thesis by auto
qed

lemma load_user_data_trace:
  assumes "load_user_data a w = (Inr t, w')"
  shows "\<exists>evs. trace w' = trace w @ OpenRead (arg_kernel a) # OpenRead (arg_rootfs a) # evs \<and>
           (\<forall>p. arg_ramdisk a = Some p \<and> p \<noteq> [] \<longrightarrow> OpenRead p \<in> set evs)"
  using assms
  by (auto simp add: load_user_data_def io_bind_load_binary io_bind_return io_return_def
           split: option.splits if_splits)

lemma program_missing_input:
  assumes miss:
    "files w ''static/header.bin'' = None \<or> files w ''static/uboot.bin'' = None \<or>
     files w ''static/metadata_header.bin'' = None \<or>
     files w ''static/metadata_footer.bin'' = None \<or>
     (\<exists>k. opt_kernel cl = Some k \<and> files w k = None) \<or>
     (\<exists>r. opt_rootfs cl = Some r \<and> files w r = None) \<or>
     (\<exists>p. opt_ramdisk cl = Some p \<and> p \<noteq> [] \<and> files w p = None)"
  shows "\<exists>e w'. program cl w = (Inl e, w') \<and> quiet w w'"
proof -
  obtain r0 w0 where init: "module_init w = (r0, w0)"
    by (cases "module_init w") auto
  have q0: "quiet w w0" using init by (rule module_init_quiet)
  show ?thesis
  proof (cases r0)
    case (Inl e)
    then have "program cl w = (Inl e, w0)"
      unfolding program_def using init by (simp add: io_bind_def)
    with q0 show ?thesis by blast
  next
    case (Inr st)
    note init' = init [unfolded Inr]
    have pr: "program cl w = main st cl w0"
      unfolding program_def using init' by (simp add: io_bind_def)
    note sp = module_init_Inr [OF init']
    have f0: "files w0 = files w" using q0 by (simp add: quiet_def)
    show ?thesis
    proof (cases "parse_args cl")
      case (Inl e)
      then have "main st cl w0 = (Inl e, w0)" by (rule main_parse_fail)
      with pr q0 show ?thesis by auto
    next
      case (Inr a)
      note ar = parse_args_Inr [OF Inr]
      have "files w0 (arg_kernel a) = None \<or> files w0 (arg_rootfs a) = None \<or>
         (\<exists>p. arg_ramdisk a = Some p \<and> p \<noteq> [] \<and> files w0 p = None)"
        using miss sp ar by (auto simp add: f0)
      then obtain e w1 where ld: "load_user_data a w0 = (Inl e, w1)"
        using load_user_data_fails [of w0 a] by blast
      have q1: "quiet w0 w1" using ld by (rule load_user_data_quiet)
      have "main st cl w0 = (Inl e, w1)"
        using Inr ld by (rule main_load_fail)
      with pr quiet_trans [OF q0 q1] show ?thesis by auto
    qed
  qed
qed

lemma program_write_last:
  assumes run: "program cl w = (r, w')"
    and tr: "trace w' = trace w @ evs"
    and ow: "OpenWrite out \<in> set evs"
  obtains evs0 k rt where
    "evs = evs0 @ [OpenWrite out]" "\<forall>p. OpenWrite p \<notin> set evs0"
    "opt_output cl = Some out" "opt_kernel cl = Some k" "opt_rootfs cl = Some rt"
    "OpenRead ''static/header.bin'' \<in> set evs0"
    "OpenRead ''static/uboot.bin'' \<in> set evs0"
    "OpenRead ''static/metadata_header.bin'' \<in> set evs0"
    "OpenRead ''static/metadata_footer.bin'' \<in> set evs0"
    "OpenRead k \<in> set evs0" "OpenRead rt \<in> set evs0"
    "\<forall>p. opt_ramdisk cl = Some p \<and> p \<noteq> [] \<longrightarrow> OpenRead p \<in> set evs0"
proof -
  have nq: "\<not> quiet w w'"
    using quiet_no_write [OF _ tr, of out] ow by blast
  obtain r0 w0 where init: "module_init w = (r0, w0)"
    by (cases "module_init w") auto
  have q0: "quiet w w0" using init by (rule module_init_quiet)
  obtain st where r0: "r0 = Inr st"
  proof (cases r0)
    case (Inl e)
    then have "program cl w = (Inl e, w0)"
      unfolding program_def using init by (simp add: io_bind_def)
    with run q0 nq show ?thesis by simp
  next
    case (Inr st)
    then show ?thesis by (rule that)
  qed
  note init' = init [unfolded r0]
  have mn: "main st cl w0 = (r, w')"
    using run unfolding program_def using init' by (simp add: io_bind_def)
  note t0 = module_init_trace [OF init']
  obtain a where pa: "parse_args cl = Inr a"
  proof (cases "parse_args cl")
    case (Inl e)
    then have "main st cl w0 = (Inl e, w0)" by (rule main_parse_fail)
    with mn q0 nq show ?thesis by simp
  next
    case (Inr a)
    then show ?thesis by (rule that)
  qed
  note ar = parse_args_Inr [OF pa]
  obtain r1 w1 where ld: "load_user_data a w0 = (r1, w1)"
    by (cases "load_user_data a w0") auto
  have q1: "quiet w0 w1" using ld by (rule load_user_data_quiet)
  note q01 = quiet_trans [OF q0 q1]
  obtain kd rd sd where r1: "r1 = Inr (kd, rd, sd)"
  proof (cases r1)
    case (Inl e)
    then have "main st cl w0 = (Inl e, w1)"
      using main_load_fail [OF pa, of w0 e w1 st] ld by simp
    with mn q01 nq show ?thesis by simp
  next
    case (Inr t)
    then show ?thesis using that by (cases t) auto
  qed
  note ld' = ld [unfolded r1]
  from load_user_data_trace [OF ld'] obtain evr where
    t1: "trace w1 = trace w0 @ OpenRead (arg_kernel a) # OpenRead (arg_rootfs a) # evr"
    and rdk: "\<forall>p. arg_ramdisk a = Some p \<and> p \<noteq> [] \<longrightarrow> OpenRead p \<in> set evr"
    by blast
  have nw1: "\<forall>p. OpenWrite p \<notin> set evr"
    using q1 t1 by (auto simp add: quiet_def)
  note ml = main_loaded [OF pa ld', of st]
  let ?h = "header_data st" and ?u = "uboot_data st"
  let ?mh = "metadata_header_data st"
  let ?R = "padded_spec (length ?h) rd" and ?K = "padded_spec 0 kd"
  let ?U = "padded_spec 0 ?u" and ?S = "padded_spec 0 sd"
  let ?m = "\<lparr>crc32_checksum = crc32 (drop 32 (?h @ ?R @ ?K @ ?U @ ?S @ ?mh)),
        primary_kernel_size = int (length ?K),
        squashfs_size = int (length ?R),
        uboot_size = int (length ?U),
        backup_kernel_size = int (length ?S)\<rparr>"
  let ?pr = "[Print ''Rootfs'' (int (length ?R)), Print ''Kernel'' (int (length ?K)),
             Print ''Uboot'' (int (length ?U)), Print ''Ramdisk'' (int (length ?S))]"
  obtain block where pk: "pack_metadata ?m = Inr block"
  proof (cases "pack_metadata ?m")
    case (Inl e)
    then have "w' = w1\<lparr>trace := trace w1 @ ?pr\<rparr>"
      using mn ml by (simp add: Let_def)
    then have "quiet w1 w'" by (simp add: quiet_def)
    with q01 nq show ?thesis by (blast intro: quiet_trans)
  next
    case (Inr b)
    then show ?thesis by (rule that)
  qed
  have tw': "trace w' = trace w1 @ ?pr @ [OpenWrite (arg_output a)]"
    using mn ml pk by (auto simp add: Let_def split: if_splits)
  let ?evs0 = "[OpenRead ''static/header.bin'', OpenRead ''static/uboot.bin'',
        OpenRead ''static/metadata_header.bin'', OpenRead ''static/metadata_footer.bin'']
        @ (OpenRead (arg_kernel a) # OpenRead (arg_rootfs a) # evr) @ ?pr"
  have ev: "evs = ?evs0 @ [OpenWrite (arg_output a)]"
    using tr tw' t1 t0 by simp
  have nw: "\<forall>p. OpenWrite p \<notin> set ?evs0"
    using nw1 by simp
  have o: "arg_output a = out"
    using ow nw unfolding ev by auto
  show ?thesis
  proof (rule that [of ?evs0 "arg_kernel a" "arg_rootfs a"])
    show "evs = ?evs0 @ [OpenWrite out]" using ev o by simp
    show "\<forall>p. OpenWrite p \<notin> set ?evs0" by (rule nw)
    show "\<forall>p. opt_ramdisk cl = Some p \<and> p \<noteq> [] \<longrightarrow> OpenRead p \<in> set ?evs0"
      using rdk ar by simp
  qed (use ar o in simp_all)
qed

text \<open>
  Claim C8. If one of the four static blobs, the kernel image, the rootfs image or a
  ramdisk image given by a non-empty path is missing or unreadable, the run ends with an
  error, every file is left as it was and the output path is never opened for writing.
  In any run that does open the output path for writing, that is the last thing it
  does: every input has been opened for reading before.
\<close>

theorem missing_input_aborts:
  "((files w ''static/header.bin'' = None \<or> files w ''static/uboot.bin'' = None \<or>
     files w ''static/metadata_header.bin'' = None \<or>
     files w ''static/metadata_footer.bin'' = None \<or>
     (\<exists>k. opt_kernel cl = Some k \<and> files w k = None) \<or>
     (\<exists>r. opt_rootfs cl = Some r \<and> files w r = None) \<or>
     (\<exists>p. opt_ramdisk cl = Some p \<and> p \<noteq> [] \<and> files w p = None)) \<longrightarrow>
    (\<exists>e w'. program cl w = (Inl e, w') \<and> files w' = files w \<and>
       (\<exists>evs. trace w' = trace w @ evs \<and> (\<forall>p. OpenWrite p \<notin> set evs))))
   \<and>
   (\<forall>r w' evs out.
      program cl w = (r, w') \<and> trace w' = trace w @ evs \<and> OpenWrite out \<in> set evs \<longrightarrow>
      (\<exists>evs0 k rt.
         evs = evs0 @ [OpenWrite out] \<and> (\<forall>p. OpenWrite p \<notin> set evs0) \<and>
         opt_output cl = Some out \<and> opt_kernel cl = Some k \<and> opt_rootfs cl = Some rt \<and>
         OpenRead ''static/header.bin'' \<in> set evs0 \<and>
         OpenRead ''static/uboot.bin'' \<in> set evs0 \<and>
         OpenRead ''static/metadata_header.bin'' \<in> set evs0 \<and>
         OpenRead ''static/metadata_footer.bin'' \<in> set evs0 \<and>
         OpenRead k \<in> set evs0 \<and> OpenRead rt \<in> set evs0 \<and>
         (\<forall>p. opt_ramdisk cl = Some p \<and> p \<noteq> [] \<longrightarrow> OpenRead p \<in> set evs0)))"
proof (intro conjI impI allI)
  assume "files w ''static/header.bin'' = None \<or> files w ''static/uboot.bin'' = None \<or>
     files w ''static/metadata_header.bin'' = None \<or>
     files w ''static/metadata_footer.bin'' = None \<or>
     (\<exists>k. opt_kernel cl = Some k \<and> files w k = None) \<or>
     (\<exists>r. opt_rootfs cl = Some r \<and> files w r = None) \<or>
     (\<exists>p. opt_ramdisk cl = Some p \<and> p \<noteq> [] \<and> files w p = None)"
  then obtain e w' where "program cl w = (Inl e, w')" "quiet w w'"
    using program_missing_input [of w cl] by blast
  then show "\<exists>e w'. program cl w = (Inl e, w') \<and> files w' = files w \<and>
       (\<exists>evs. trace w' = trace w @ evs \<and> (\<forall>p. OpenWrite p \<notin> set evs))"
    unfolding quiet_def by blast
next
  fix r w' evs out
  assume a: "program cl w = (r, w') \<and> trace w' = trace w @ evs \<and> OpenWrite out \<in> set evs"
  then have a1: "program cl w = (r, w')" and a2: "trace w' = trace w @ evs"
    and a3: "OpenWrite out \<in> set evs" by simp_all
  show "\<exists>evs0 k rt.
         evs = evs0 @ [OpenWrite out] \<and> (\<forall>p. OpenWrite p \<notin> set evs0) \<and>
         opt_output cl = Some out \<and> opt_kernel cl = Some k \<and> opt_rootfs cl = Some rt \<and>
         OpenRead ''static/header.bin'' \<in> set evs0 \<and>
         OpenRead ''static/uboot.bin'' \<in> set evs0 \<and>
         OpenRead ''static/metadata_header.bin'' \<in> set evs0 \<and>
         OpenRead ''static/metadata_footer.bin'' \<in> set evs0 \<and>
         OpenRead k \<in> set evs0 \<and> OpenRead rt \<in> set evs0 \<and>
         (\<forall>p. opt_ramdisk cl = Some p \<and> p \<noteq> [] \<longrightarrow> OpenRead p \<in> set evs0)"
    by (rule program_write_last [OF a1 a2 a3]) blast
qed

theorem missing_input_aborts_witness:
  "(\<exists>k. opt_kernel example_cmdline = Some k \<and>
        files (example_world\<lparr>files := (files example_world)(''kernel.bin'' := None)\<rparr>) k = None) \<and>
   (\<exists>e w'. program example_cmdline
              (example_world\<lparr>files := (files example_world)(''kernel.bin'' := None)\<rparr>)
              = (Inl e, w') \<and>
       files w' = files (example_world\<lparr>files := (files example_world)(''kernel.bin'' := None)\<rparr>) \<and>
       (\<exists>evs. trace w' =
           trace (example_world\<lparr>files := (files example_world)(''kernel.bin'' := None)\<rparr>) @ evs \<and>
          (\<forall>p. OpenWrite p \<notin> set evs))) \<and>
   program example_cmdline example_world = (Inr (), example_result) \<and>
   trace example_result = trace example_world @ trace example_result \<and>
   OpenWrite ''out.bin'' \<in> set (trace example_result) \<and>
   (\<exists>evs0. trace example_result = evs0 @ [OpenWrite ''out.bin''] \<and>
      (\<forall>p. OpenWrite p \<notin> set evs0) \<and>
      OpenRead ''static/header.bin'' \<in> set evs0 \<and>
      OpenRead ''kernel.bin'' \<in> set evs0 \<and> OpenRead ''rootfs.bin'' \<in> set evs0)"
proof -
  let ?W = "example_world\<lparr>files := (files example_world)(''kernel.bin'' := None)\<rparr>"
  have h: "\<exists>k. opt_kernel example_cmdline = Some k \<and> files ?W k = None"
    by (simp add: example_cmdline_def)
  have c1: "\<exists>e w'. program example_cmdline ?W = (Inl e, w') \<and> files w' = files ?W \<and>
       (\<exists>evs. trace w' = trace ?W @ evs \<and> (\<forall>p. OpenWrite p \<notin> set evs))"
    using missing_input_aborts [of ?W example_cmdline] h by blast
  have t: "trace example_result = trace example_world @ trace example_result"
    by (simp add: example_result_def example_world_def)
  have o: "OpenWrite ''out.bin'' \<in> set (trace example_result)"
    by (simp add: example_result_def)
  have "\<exists>evs0 k rt.
         trace example_result = evs0 @ [OpenWrite ''out.bin''] \<and>
         (\<forall>p. OpenWrite p \<notin> set evs0) \<and>
         opt_output example_cmdline = Some ''out.bin'' \<and>
         opt_kernel example_cmdline = Some k \<and> opt_rootfs example_cmdline = Some rt \<and>
         OpenRead ''static/header.bin'' \<in> set evs0 \<and>
         OpenRead ''static/uboot.bin'' \<in> set evs0 \<and>
         OpenRead ''static/metadata_header.bin'' \<in> set evs0 \<and>
         OpenRead ''static/metadata_footer.bin'' \<in> set evs0 \<and>
         OpenRead k \<in> set evs0 \<and> OpenRead rt \<in> set evs0 \<and>
         (\<forall>p. opt_ramdisk example_cmdline = Some p \<and> p \<noteq> [] \<longrightarrow> OpenRead p \<in> set evs0)"
    using missing_input_aborts [of example_world example_cmdline] example_run_result t o
    by blast
  then have c2: "\<exists>evs0. trace example_result = evs0 @ [OpenWrite ''out.bin''] \<and>
      (\<forall>p. OpenWrite p \<notin> set evs0) \<and>
      OpenRead ''static/header.bin'' \<in> set evs0 \<and>
      OpenRead ''kernel.bin'' \<in> set evs0 \<and> OpenRead ''rootfs.bin'' \<in> set evs0"
    by (auto simp add: example_cmdline_def)
  from h c1 example_run_result t o c2 show ?thesis by blast
qed

end
